theory Spec2Isabelle
  imports Complex_Main "HOL-Library.Word" "HOL-Library.Signed_Division"
begin

unbundle bit_operations_syntax

section \<open>Kernel macros used by the driver\<close>

text \<open>
  The driver is written against the Linux kernel headers. The macros below are the
  kernel's: \<^verbatim>\<open>BIT(n)\<close> is \<^verbatim>\<open>1UL << n\<close>, \<^verbatim>\<open>GENMASK(h, l)\<close> has the bits
  \<open>l\<close> to \<open>h\<close> set, \<^verbatim>\<open>DIV_ROUND_UP(n, d)\<close> is \<^verbatim>\<open>((n) + (d) - 1) / (d)\<close> and
  \<^verbatim>\<open>sign_extend32(value, index)\<close> is \<^verbatim>\<open>(s32)(value << (31 - index)) >> (31 - index)\<close>.
  A C \<^verbatim>\<open>int\<close> or \<^verbatim>\<open>unsigned int\<close> is a \<open>32 word\<close>; \<open>sint\<close> reads it signed.
\<close>

definition BIT :: "nat \<Rightarrow> 32 word" where
  "BIT n = push_bit n 1"

definition GENMASK :: "nat \<Rightarrow> nat \<Rightarrow> 32 word" where
  "GENMASK h l = push_bit l (mask (h + 1 - l))"

definition DIV_ROUND_UP :: "nat \<Rightarrow> nat \<Rightarrow> nat" where
  "DIV_ROUND_UP n d = (n + d - 1) div d"

definition USEC_PER_SEC :: nat where
  "USEC_PER_SEC = 1000000"

definition sign_extend32 :: "32 word \<Rightarrow> nat \<Rightarrow> 32 word" where
  "sign_extend32 v index = signed_drop_bit (31 - index) (push_bit (31 - index) v)"

section \<open>Constants of the driver\<close>

definition ADS1015_CONV_REG :: nat where "ADS1015_CONV_REG = 0"
definition ADS1015_CFG_REG :: nat where "ADS1015_CFG_REG = 1"
definition ADS1015_LO_THRESH_REG :: nat where "ADS1015_LO_THRESH_REG = 2"
definition ADS1015_HI_THRESH_REG :: nat where "ADS1015_HI_THRESH_REG = 3"

definition ADS1015_CFG_COMP_QUE_SHIFT :: nat where "ADS1015_CFG_COMP_QUE_SHIFT = 0"
definition ADS1015_CFG_DR_SHIFT :: nat where "ADS1015_CFG_DR_SHIFT = 5"
definition ADS1015_CFG_MOD_SHIFT :: nat where "ADS1015_CFG_MOD_SHIFT = 8"
definition ADS1015_CFG_PGA_SHIFT :: nat where "ADS1015_CFG_PGA_SHIFT = 9"
definition ADS1015_CFG_MUX_SHIFT :: nat where "ADS1015_CFG_MUX_SHIFT = 12"

definition ADS1015_CFG_COMP_QUE_MASK :: "32 word" where
  "ADS1015_CFG_COMP_QUE_MASK = GENMASK 1 0"
definition ADS1015_CFG_DR_MASK :: "32 word" where
  "ADS1015_CFG_DR_MASK = GENMASK 7 5"
definition ADS1015_CFG_MOD_MASK :: "32 word" where
  "ADS1015_CFG_MOD_MASK = BIT 8"
definition ADS1015_CFG_PGA_MASK :: "32 word" where
  "ADS1015_CFG_PGA_MASK = GENMASK 11 9"
definition ADS1015_CFG_MUX_MASK :: "32 word" where
  "ADS1015_CFG_MUX_MASK = GENMASK 14 12"

text \<open>Comparator queue and disable field.\<close>

definition ADS1015_CFG_COMP_DISABLE :: "32 word" where
  "ADS1015_CFG_COMP_DISABLE = 3"

text \<open>Device operating modes.\<close>

definition ADS1015_CONTINUOUS :: "32 word" where "ADS1015_CONTINUOUS = 0"
definition ADS1015_SINGLESHOT :: "32 word" where "ADS1015_SINGLESHOT = 1"

definition ADS1015_DEFAULT_PGA :: "32 word" where "ADS1015_DEFAULT_PGA = 2"
definition ADS1015_DEFAULT_DATA_RATE :: "32 word" where "ADS1015_DEFAULT_DATA_RATE = 4"

text \<open>
  \<^verbatim>\<open>ADS1015_CHANNELS\<close> and \<^verbatim>\<open>struct ads1015_channel_data\<close> are declared in
  \<^verbatim>\<open>linux/platform_data/ads1015.h\<close>, which the driver includes: eight channels, the
  eight voltage inputs of \<^verbatim>\<open>enum ads1015_channels\<close>, each with an enable flag, a gain
  index and a data rate index.
\<close>

definition ADS1015_CHANNELS :: nat where
  "ADS1015_CHANNELS = 8"

datatype chip_ids = ADS1015 | ADS1115

definition ads1015_data_rate :: "32 word list" where
  "ads1015_data_rate = [128, 250, 490, 920, 1600, 2400, 3300, 3300]"

definition ads1115_data_rate :: "32 word list" where
  "ads1115_data_rate = [8, 16, 32, 64, 128, 250, 475, 860]"

text \<open>Translation from PGA bits to full-scale positive and negative input voltage range in mV.\<close>

definition ads1015_fullscale_range :: "32 word list" where
  "ads1015_fullscale_range = [6144, 4096, 2048, 1024, 512, 256, 256, 256]"

section \<open>Errors, events and the state of the driver\<close>

text \<open>
  A kernel function returns a negative errno on failure. \<open>Undefined\<close> is not an errno:
  it marks an array access past the end of the array or a division by zero, where C
  leaves the behaviour undefined.
\<close>

datatype errno = EIO | EAGAIN | ENOMEM | EBUSY | EINVAL | EREMOTEIO | ETIMEDOUT

datatype error = Errno errno | Undefined

text \<open>
  What the driver does to the outside, in the order it does it: a transfer on the bus
  that reads or writes a register of the chip (logged when it is attempted, whether it
  succeeds or not), and a sleep of between \<open>min\<close> and \<open>max\<close> microseconds.
\<close>

datatype event = BusRead nat | BusWrite nat "16 word" | USleep nat nat

text \<open>
  Modelled from the spec: the Register Device, \<^verbatim>\<open>read(u8 addr) -> u16 | Error\<close> and
  \<^verbatim>\<open>write(u8 addr, u16 value) -> () | Error\<close> over four registers. The record holds
  the four registers of the chip and the outcomes of the transfers to come, the next
  one first: \<open>None\<close> for a transfer that succeeds, \<open>Some e\<close> for one that fails with
  \<open>-e\<close>; once the list is used up every transfer succeeds.
\<close>

record regmap =
  conv_reg :: "16 word"
  cfg_reg :: "16 word"
  lo_thresh_reg :: "16 word"
  hi_thresh_reg :: "16 word"
  xfer :: "errno option list"

record ads1015_channel_data =
  enabled :: bool
  pga :: "32 word"
  data_rate :: "32 word"

text \<open>
  \<^verbatim>\<open>struct ads1015_data\<close>. The field \<^verbatim>\<open>data_rate\<close>, a pointer to the rate table of
  the chip, is \<open>data_rate_tab\<close> here, the table itself. The mutex is left out: the
  functions below run one at a time. The last three fields are not in the C struct:
  the runtime power management state of the device behind \<^verbatim>\<open>data->regmap\<close>
  (\<^verbatim>\<open>dev->power.usage_count\<close>, and whether its status is suspended), and the events so
  far, oldest first.
\<close>

record ads1015_data =
  regmap :: regmap
  channel_data :: "ads1015_channel_data list"
  data_rate_tab :: "32 word list"
  conv_invalid :: bool
  irq :: int
  timestamp :: int
  use_buffer :: bool
  usage_count :: int
  runtime_suspended :: bool
  trace :: "event list"

section \<open>Sequencing of calls that may fail\<close>

text \<open>
  A C function that returns an error code and changes the state through a pointer is a
  function from the state to a result and the new state. \<open>bindE m f\<close> is
  \<^verbatim>\<open>ret = m(); if (ret) return ret; f();\<close>.
\<close>

type_synonym ('s, 'a) prog = "'s \<Rightarrow> (error + 'a) \<times> 's"

definition returnE :: "'a \<Rightarrow> ('s, 'a) prog" where
  "returnE a s = (Inr a, s)"

definition throwE :: "error \<Rightarrow> ('s, 'a) prog" where
  "throwE e s = (Inl e, s)"

definition bindE :: "('s, 'a) prog \<Rightarrow> ('a \<Rightarrow> ('s, 'b) prog) \<Rightarrow> ('s, 'b) prog" where
  "bindE m f s = (case m s of (Inl e, s') \<Rightarrow> (Inl e, s') | (Inr a, s') \<Rightarrow> f a s')"

definition modifyE :: "('s \<Rightarrow> 's) \<Rightarrow> ('s, unit) prog" where
  "modifyE g s = (Inr (), g s)"

definition log_event :: "event \<Rightarrow> (ads1015_data, unit) prog" where
  "log_event ev = modifyE (\<lambda>d. d\<lparr>trace := trace d @ [ev]\<rparr>)"

section \<open>The register map\<close>

definition ads1015_is_writeable_reg :: "nat \<Rightarrow> bool" where
  "ads1015_is_writeable_reg reg =
     (if reg = ADS1015_CFG_REG \<or> reg = ADS1015_LO_THRESH_REG \<or> reg = ADS1015_HI_THRESH_REG
      then True else False)"

text \<open>\<^verbatim>\<open>ads1015_regmap_config\<close>: 8 bit addresses, 16 bit values, no cache.\<close>

definition max_register :: nat where
  "max_register = ADS1015_HI_THRESH_REG"

definition reg_get :: "regmap \<Rightarrow> nat \<Rightarrow> 16 word" where
  "reg_get m reg =
     (if reg = ADS1015_CONV_REG then conv_reg m
      else if reg = ADS1015_CFG_REG then cfg_reg m
      else if reg = ADS1015_LO_THRESH_REG then lo_thresh_reg m
      else hi_thresh_reg m)"

definition reg_set :: "nat \<Rightarrow> 16 word \<Rightarrow> regmap \<Rightarrow> regmap" where
  "reg_set reg v m =
     (if reg = ADS1015_CONV_REG then m\<lparr>conv_reg := v\<rparr>
      else if reg = ADS1015_CFG_REG then m\<lparr>cfg_reg := v\<rparr>
      else if reg = ADS1015_LO_THRESH_REG then m\<lparr>lo_thresh_reg := v\<rparr>
      else m\<lparr>hi_thresh_reg := v\<rparr>)"

text \<open>One transfer on the bus: it takes the next outcome off the list.\<close>

definition bus_xfer :: "(ads1015_data, unit) prog" where
  "bus_xfer d =
     (let d' = d\<lparr>regmap := (regmap d)\<lparr>xfer := tl (xfer (regmap d))\<rparr>\<rparr>
      in case xfer (regmap d) of
           Some e # rest \<Rightarrow> (Inl (Errno e), d')
         | _ \<Rightarrow> (Inr (), d'))"

text \<open>
  Modelled from the spec: \<^verbatim>\<open>regmap_read\<close>, \<^verbatim>\<open>regmap_write\<close> and
  \<^verbatim>\<open>regmap_update_bits\<close> of the kernel's register map, the read and write of the
  Register Device. A register beyond \<^verbatim>\<open>max_register\<close>, or a write to a register that
  \<^verbatim>\<open>ads1015_is_writeable_reg\<close> refuses, fails with \<^verbatim>\<open>-EIO\<close> before the bus is used. A
  write stores the low 16 bits; a failed transfer leaves the register as it was.
  \<^verbatim>\<open>regmap_update_bits\<close> reads the register, replaces the bits under the mask and
  writes the result back when it differs from what was read.
\<close>

definition regmap_read :: "nat \<Rightarrow> (ads1015_data, 32 word) prog" where
  "regmap_read reg =
     (if max_register < reg then throwE (Errno EIO)
      else bindE (log_event (BusRead reg)) (\<lambda>_.
           bindE bus_xfer (\<lambda>_ d.
           (Inr (ucast (reg_get (regmap d) reg)), d))))"

definition regmap_write :: "nat \<Rightarrow> 32 word \<Rightarrow> (ads1015_data, unit) prog" where
  "regmap_write reg val =
     (if max_register < reg \<or> \<not> ads1015_is_writeable_reg reg then throwE (Errno EIO)
      else bindE (log_event (BusWrite reg (ucast val))) (\<lambda>_.
           bindE bus_xfer (\<lambda>_.
           modifyE (\<lambda>d. d\<lparr>regmap := reg_set reg (ucast val) (regmap d)\<rparr>))))"

definition regmap_update_bits :: "nat \<Rightarrow> 32 word \<Rightarrow> 32 word \<Rightarrow> (ads1015_data, unit) prog" where
  "regmap_update_bits reg msk val =
     bindE (regmap_read reg) (\<lambda>orig.
       let tmp = (orig AND NOT msk) OR (val AND msk)
       in if tmp \<noteq> orig then regmap_write reg tmp else returnE ())"

definition usleep_range :: "nat \<Rightarrow> nat \<Rightarrow> (ads1015_data, unit) prog" where
  "usleep_range min_us max_us = log_event (USleep min_us max_us)"

section \<open>The conversion controller\<close>

text \<open>
  The settling time of \<^verbatim>\<open>ads1015_get_adc_result\<close>, in microseconds:
  \<^verbatim>\<open>conv_time = DIV_ROUND_UP(USEC_PER_SEC, data->data_rate[dr_old]);\<close>
  \<^verbatim>\<open>conv_time += DIV_ROUND_UP(USEC_PER_SEC, data->data_rate[dr]);\<close>
  \<^verbatim>\<open>conv_time += conv_time / 10;\<close>
  \<open>None\<close> where an index is outside the table or a rate is 0.
\<close>

definition conv_time :: "32 word list \<Rightarrow> nat \<Rightarrow> nat \<Rightarrow> nat option" where
  "conv_time tab dr_old dr =
     (if dr_old < length tab \<and> dr < length tab \<and> tab ! dr_old \<noteq> 0 \<and> tab ! dr \<noteq> 0 then
        let t = DIV_ROUND_UP USEC_PER_SEC (unat (tab ! dr_old));
            t = t + DIV_ROUND_UP USEC_PER_SEC (unat (tab ! dr));
            t = t + t div 10
        in Some t
      else None)"

definition cfg_fields_mask :: "32 word" where
  "cfg_fields_mask = ADS1015_CFG_MUX_MASK OR ADS1015_CFG_PGA_MASK OR ADS1015_CFG_DR_MASK"

definition ads1015_get_adc_result :: "32 word \<Rightarrow> (ads1015_data, 32 word) prog" where
  "ads1015_get_adc_result chan data =
     (if chan <s 0 \<or> of_nat ADS1015_CHANNELS \<le>s chan then throwE (Errno EINVAL) data
      else
        bindE (regmap_read ADS1015_CFG_REG) (\<lambda>old data1.
          if length (channel_data data1) \<le> unat chan then throwE Undefined data1
          else
            let pga = pga (channel_data data1 ! unat chan);
                dr = data_rate (channel_data data1 ! unat chan);
                cfg = push_bit ADS1015_CFG_MUX_SHIFT chan OR push_bit ADS1015_CFG_PGA_SHIFT pga
                      OR push_bit ADS1015_CFG_DR_SHIFT dr;
                cfg = (old AND NOT cfg_fields_mask) OR (cfg AND cfg_fields_mask)
            in
              bindE (if old \<noteq> cfg
                     then bindE (regmap_write ADS1015_CFG_REG cfg) (\<lambda>_.
                          modifyE (\<lambda>d. d\<lparr>conv_invalid := True\<rparr>))
                     else returnE ()) (\<lambda>_.
              bindE (\<lambda>data2.
                     if conv_invalid data2 then
                       let dr_old = drop_bit ADS1015_CFG_DR_SHIFT (old AND ADS1015_CFG_DR_MASK)
                       in case conv_time (data_rate_tab data2) (unat dr_old) (unat dr) of
                            None \<Rightarrow> throwE Undefined data2
                          | Some t \<Rightarrow>
                              bindE (usleep_range t (t + 1)) (\<lambda>_.
                              modifyE (\<lambda>d. d\<lparr>conv_invalid := False\<rparr>)) data2
                     else returnE () data2) (\<lambda>_.
              regmap_read ADS1015_CONV_REG)) data1) data)"


section \<open>Channels\<close>

text \<open>
  The fields of \<^verbatim>\<open>struct iio_chan_spec\<close> that the driver reads. The macros
  \<^verbatim>\<open>ADS1015_V_CHAN\<close> and \<^verbatim>\<open>ADS1015_V_DIFF_CHAN\<close> give a channel 12 bits stored in 16,
  shifted by 4; \<^verbatim>\<open>ADS1115_V_CHAN\<close> and \<^verbatim>\<open>ADS1115_V_DIFF_CHAN\<close> give it 16 bits, not
  shifted. Single-ended and differential channels differ in their names only.
\<close>

record iio_chan_spec =
  address :: nat
  scan_index :: nat
  realbits :: nat
  storagebits :: nat
  shift :: nat

definition ADS1015_V_CHAN :: "nat \<Rightarrow> iio_chan_spec" where
  "ADS1015_V_CHAN addr =
     \<lparr>address = addr, scan_index = addr, realbits = 12, storagebits = 16, shift = 4\<rparr>"

definition ADS1115_V_CHAN :: "nat \<Rightarrow> iio_chan_spec" where
  "ADS1115_V_CHAN addr =
     \<lparr>address = addr, scan_index = addr, realbits = 16, storagebits = 16, shift = 0\<rparr>"

definition IIO_CHAN_SOFT_TIMESTAMP :: "nat \<Rightarrow> iio_chan_spec" where
  "IIO_CHAN_SOFT_TIMESTAMP si =
     \<lparr>address = 0, scan_index = si, realbits = 64, storagebits = 64, shift = 0\<rparr>"

text \<open>\<^verbatim>\<open>enum ads1015_channels\<close>: AIN0-AIN1 is 0, \dots, AIN3 is 7, the timestamp is 8.\<close>

definition ADS1015_TIMESTAMP :: nat where
  "ADS1015_TIMESTAMP = 8"

definition ads1015_channels :: "iio_chan_spec list" where
  "ads1015_channels = map ADS1015_V_CHAN [0, 1, 2, 3, 4, 5, 6, 7]
     @ [IIO_CHAN_SOFT_TIMESTAMP ADS1015_TIMESTAMP]"

definition ads1115_channels :: "iio_chan_spec list" where
  "ads1115_channels = map ADS1115_V_CHAN [0, 1, 2, 3, 4, 5, 6, 7]
     @ [IIO_CHAN_SOFT_TIMESTAMP ADS1015_TIMESTAMP]"

section \<open>The unit translator\<close>

text \<open>
  \<^verbatim>\<open>div_s64((scale * 1000000LL + uscale) << (chan->scan_type.realbits - 1), 1000000)\<close>,
  assigned to an \<^verbatim>\<open>int\<close>: the sum and the shift are 64 bit, the division is signed and
  truncates towards zero, and the assignment keeps the low 32 bits.
\<close>

definition fullscale_of :: "iio_chan_spec \<Rightarrow> 32 word \<Rightarrow> 32 word \<Rightarrow> 32 word" where
  "fullscale_of chan scale uscale =
     word_of_int
       (sint (push_bit (realbits chan - 1) (scast scale * 1000000 + scast uscale :: 64 word))
        sdiv 1000000)"

text \<open>
  The loop of \<^verbatim>\<open>ads1015_set_scale\<close> from index \<open>i\<close> on:
  \<^verbatim>\<open>for (; i < ARRAY_SIZE(ads1015_fullscale_range); i++)\<close>
  \<^verbatim>\<open>  if (ads1015_fullscale_range[i] == fullscale) {\<close>
  \<^verbatim>\<open>    data->channel_data[chan->address].pga = i; return 0; }\<close>
  \<^verbatim>\<open>return -EINVAL;\<close>
\<close>

function ads1015_set_scale_loop ::
  "iio_chan_spec \<Rightarrow> 32 word \<Rightarrow> nat \<Rightarrow> (ads1015_data, unit) prog" where
  "ads1015_set_scale_loop chan fullscale i data =
     (if i < length ads1015_fullscale_range then
        if ads1015_fullscale_range ! i = fullscale then
          if address chan < length (channel_data data) then
            (Inr (), data\<lparr>channel_data :=
               (channel_data data)[address chan :=
                  (channel_data data ! address chan)\<lparr>pga := of_nat i\<rparr>]\<rparr>)
          else (Inl Undefined, data)
        else ads1015_set_scale_loop chan fullscale (i + 1) data
      else (Inl (Errno EINVAL), data))"
  by pat_completeness auto
termination
  by (relation "measure (\<lambda>(chan, fullscale, i, data). length ads1015_fullscale_range - i)") auto

declare ads1015_set_scale_loop.simps [simp del]

definition ads1015_set_scale ::
  "iio_chan_spec \<Rightarrow> 32 word \<Rightarrow> 32 word \<Rightarrow> (ads1015_data, unit) prog" where
  "ads1015_set_scale chan scale uscale =
     ads1015_set_scale_loop chan (fullscale_of chan scale uscale) 0"

text \<open>
  The loop of \<^verbatim>\<open>ads1015_set_data_rate\<close> from index \<open>i\<close> on. Its bound is
  \<^verbatim>\<open>ARRAY_SIZE(ads1015_data_rate)\<close> for both chips; the table it reads is
  \<^verbatim>\<open>data->data_rate\<close>.
\<close>

function ads1015_set_data_rate_loop ::
  "32 word \<Rightarrow> 32 word \<Rightarrow> nat \<Rightarrow> (ads1015_data, unit) prog" where
  "ads1015_set_data_rate_loop chan rate i data =
     (if i < length ads1015_data_rate then
        if length (data_rate_tab data) \<le> i then (Inl Undefined, data)
        else if data_rate_tab data ! i = rate then
          if unat chan < length (channel_data data) then
            (Inr (), data\<lparr>channel_data :=
               (channel_data data)[unat chan :=
                  (channel_data data ! unat chan)\<lparr>data_rate := of_nat i\<rparr>]\<rparr>)
          else (Inl Undefined, data)
        else ads1015_set_data_rate_loop chan rate (i + 1) data
      else (Inl (Errno EINVAL), data))"
  by pat_completeness auto
termination
  by (relation "measure (\<lambda>(chan, rate, i, data). length ads1015_data_rate - i)") auto

declare ads1015_set_data_rate_loop.simps [simp del]

definition ads1015_set_data_rate :: "32 word \<Rightarrow> 32 word \<Rightarrow> (ads1015_data, unit) prog" where
  "ads1015_set_data_rate chan rate = ads1015_set_data_rate_loop chan rate 0"

section \<open>Conversion mode and runtime power management\<close>

definition ads1015_set_conv_mode :: "32 word \<Rightarrow> (ads1015_data, unit) prog" where
  "ads1015_set_conv_mode mode =
     regmap_update_bits ADS1015_CFG_REG ADS1015_CFG_MOD_MASK (push_bit ADS1015_CFG_MOD_SHIFT mode)"

definition ads1015_set_conv_ready_pin :: "(ads1015_data, unit) prog" where
  "ads1015_set_conv_ready_pin =
     bindE (regmap_write ADS1015_LO_THRESH_REG 0) (\<lambda>_.
     bindE (regmap_write ADS1015_HI_THRESH_REG 0xFFFF) (\<lambda>_.
     regmap_update_bits ADS1015_CFG_REG ADS1015_CFG_COMP_QUE_MASK 0))"

definition ads1015_runtime_suspend :: "(ads1015_data, unit) prog" where
  "ads1015_runtime_suspend = ads1015_set_conv_mode ADS1015_SINGLESHOT"

definition ads1015_runtime_resume :: "(ads1015_data, unit) prog" where
  "ads1015_runtime_resume data =
     (case ads1015_set_conv_mode ADS1015_CONTINUOUS data of
        (Inr u, data') \<Rightarrow> (Inr u, data'\<lparr>conv_invalid := True\<rparr>)
      | (Inl e, data') \<Rightarrow> (Inl e, data'))"

text \<open>
  Modelled from the spec: the Power State Controller, the kernel's runtime power
  management of the device. \<^verbatim>\<open>pm_runtime_get_sync\<close> takes a reference and, when the
  device is suspended, runs \<^verbatim>\<open>ads1015_runtime_resume\<close> before it returns: 0 after a
  resume, 1 when the device was active already; a failed resume leaves the device
  suspended and its error is returned. \<^verbatim>\<open>pm_runtime_put_noidle\<close> drops a reference.
  \<^verbatim>\<open>pm_runtime_put_autosuspend\<close> drops a reference and returns 0: the device is not
  suspended by this call but after the autosuspend delay, by \<open>pm_autosuspend_expired\<close>,
  which runs \<^verbatim>\<open>ads1015_runtime_suspend\<close> when no reference is held.
\<close>

definition pm_runtime_get_sync :: "(ads1015_data, 32 word) prog" where
  "pm_runtime_get_sync dev =
     (let dev1 = dev\<lparr>usage_count := usage_count dev + 1\<rparr>
      in if runtime_suspended dev1 then
           case ads1015_runtime_resume dev1 of
             (Inr _, dev2) \<Rightarrow> (Inr 0, dev2\<lparr>runtime_suspended := False\<rparr>)
           | (Inl e, dev2) \<Rightarrow> (Inl e, dev2)
         else (Inr 1, dev1))"

definition pm_runtime_put_noidle :: "ads1015_data \<Rightarrow> ads1015_data" where
  "pm_runtime_put_noidle dev = dev\<lparr>usage_count := usage_count dev - 1\<rparr>"

definition pm_runtime_put_autosuspend :: "(ads1015_data, 32 word) prog" where
  "pm_runtime_put_autosuspend dev = (Inr 0, dev\<lparr>usage_count := usage_count dev - 1\<rparr>)"

definition pm_autosuspend_expired :: "ads1015_data \<Rightarrow> ads1015_data" where
  "pm_autosuspend_expired dev =
     (if usage_count dev = 0 \<and> \<not> runtime_suspended dev then
        case ads1015_runtime_suspend dev of
          (Inr _, dev') \<Rightarrow> dev'\<lparr>runtime_suspended := True\<rparr>
        | (Inl e, dev') \<Rightarrow> dev'
      else dev)"

definition ads1015_set_power_state :: "bool \<Rightarrow> (ads1015_data, unit) prog" where
  "ads1015_set_power_state on data =
     (if on then
        case pm_runtime_get_sync data of
          (Inl e, data') \<Rightarrow> (Inl e, pm_runtime_put_noidle data')
        | (Inr ret, data') \<Rightarrow> (Inr (), data')
      else
        case pm_runtime_put_autosuspend data of
          (Inl e, data') \<Rightarrow> (Inl e, data')
        | (Inr ret, data') \<Rightarrow> (Inr (), data'))"


section \<open>The IIO device\<close>

text \<open>
  Modelled from the spec: what the driver uses of \<^verbatim>\<open>struct iio_dev\<close>. \<open>priv\<close> is the
  driver's data (\<^verbatim>\<open>iio_priv\<close>), \<open>buffer_enabled\<close> is what \<^verbatim>\<open>iio_buffer_enabled\<close>
  returns, \<open>active_scan_mask\<close> has one bit per scan index, and \<open>pushed\<close> is the Sample
  Sink: the samples and timestamps given to \<^verbatim>\<open>iio_push_to_buffers_with_timestamp\<close>,
  oldest first (the driver ignores what that call returns).
\<close>

record iio_dev =
  priv :: ads1015_data
  buffer_enabled :: bool
  active_scan_mask :: "bool list"
  masklength :: nat
  pushed :: "(16 word \<times> int) list"

definition with_priv :: "(ads1015_data, 'a) prog \<Rightarrow> (iio_dev, 'a) prog" where
  "with_priv m indio_dev =
     (case m (priv indio_dev) of (r, data') \<Rightarrow> (r, indio_dev\<lparr>priv := data'\<rparr>))"

definition iio_buffer_enabled :: "iio_dev \<Rightarrow> bool" where
  "iio_buffer_enabled indio_dev = buffer_enabled indio_dev"

text \<open>
  \<^verbatim>\<open>iio_device_claim_direct_mode\<close> fails with \<^verbatim>\<open>-EBUSY\<close> while the buffer is
  enabled; the release that follows it changes nothing here.
\<close>

definition iio_device_claim_direct_mode :: "(iio_dev, unit) prog" where
  "iio_device_claim_direct_mode indio_dev =
     (if buffer_enabled indio_dev then (Inl (Errno EBUSY), indio_dev) else (Inr (), indio_dev))"


datatype iio_chan_info =
  IIO_CHAN_INFO_RAW | IIO_CHAN_INFO_PROCESSED | IIO_CHAN_INFO_SCALE | IIO_CHAN_INFO_OFFSET
  | IIO_CHAN_INFO_SAMP_FREQ

text \<open>
  What \<^verbatim>\<open>read_raw\<close> returns when it does not fail: the format, with the values it
  stored in \<^verbatim>\<open>*val\<close> and \<^verbatim>\<open>*val2\<close>.
\<close>

datatype iio_val = IIO_VAL_INT "32 word" | IIO_VAL_FRACTIONAL_LOG2 "32 word" nat

definition ads1015_read_raw :: "iio_chan_spec \<Rightarrow> iio_chan_info \<Rightarrow> (iio_dev, iio_val) prog" where
  "ads1015_read_raw chan info indio_dev =
     (case info of
        IIO_CHAN_INFO_RAW \<Rightarrow>
          if iio_buffer_enabled indio_dev then (Inl (Errno EAGAIN), indio_dev)
          else
            bindE iio_device_claim_direct_mode (\<lambda>_.
            with_priv (
              bindE (ads1015_set_power_state True) (\<lambda>_ data.
                case ads1015_get_adc_result (of_nat (address chan)) data of
                  (Inl e, data') \<Rightarrow> (Inl e, snd (ads1015_set_power_state False data'))
                | (Inr val, data') \<Rightarrow>
                    bindE (ads1015_set_power_state False) (\<lambda>_.
                    returnE (IIO_VAL_INT
                      (sign_extend32 (signed_drop_bit (shift chan) val) (15 - shift chan))))
                    data'))) indio_dev
      | IIO_CHAN_INFO_SCALE \<Rightarrow>
          (let data = priv indio_dev in
           if length (channel_data data) \<le> address chan then (Inl Undefined, indio_dev)
           else
             let idx = unat (pga (channel_data data ! address chan)) in
             if length ads1015_fullscale_range \<le> idx then (Inl Undefined, indio_dev)
             else (Inr (IIO_VAL_FRACTIONAL_LOG2 (ads1015_fullscale_range ! idx) (realbits chan - 1)),
                   indio_dev))
      | IIO_CHAN_INFO_SAMP_FREQ \<Rightarrow>
          (let data = priv indio_dev in
           if length (channel_data data) \<le> address chan then (Inl Undefined, indio_dev)
           else
             let idx = unat (data_rate (channel_data data ! address chan)) in
             if length (data_rate_tab data) \<le> idx then (Inl Undefined, indio_dev)
             else (Inr (IIO_VAL_INT (data_rate_tab data ! idx)), indio_dev))
      | _ \<Rightarrow> (Inl (Errno EINVAL), indio_dev))"

definition ads1015_write_raw ::
  "iio_chan_spec \<Rightarrow> 32 word \<Rightarrow> 32 word \<Rightarrow> iio_chan_info \<Rightarrow> (iio_dev, unit) prog" where
  "ads1015_write_raw chan val val2 info =
     (case info of
        IIO_CHAN_INFO_SCALE \<Rightarrow> with_priv (ads1015_set_scale chan val val2)
      | IIO_CHAN_INFO_SAMP_FREQ \<Rightarrow> with_priv (ads1015_set_data_rate (of_nat (address chan)) val)
      | _ \<Rightarrow> throwE (Errno EINVAL))"

section \<open>Buffered capture\<close>






text \<open>The hard interrupt handler: \<open>now\<close> is what \<^verbatim>\<open>iio_get_time_ns\<close> returns.\<close>

definition ads1015_irq_handler :: "int \<Rightarrow> iio_dev \<Rightarrow> iio_dev" where
  "ads1015_irq_handler now indio_dev =
     indio_dev\<lparr>priv := (priv indio_dev)\<lparr>timestamp := now\<rparr>\<rparr>"




section \<open>Probe\<close>

text \<open>
  A child node of the device tree node of the chip: its properties \<^verbatim>\<open>reg\<close>,
  \<^verbatim>\<open>ti,gain\<close> and \<^verbatim>\<open>ti,datarate\<close>, \<open>None\<close> where \<^verbatim>\<open>of_property_read_u32\<close> fails.
\<close>

record of_child =
  prop_reg :: "32 word option"
  prop_gain :: "32 word option"
  prop_datarate :: "32 word option"

text \<open>
  What \<^verbatim>\<open>ads1015_probe\<close> is given: the chip it was matched to, the device tree node
  (its children) and the platform data when there are any, the interrupt line and its
  trigger type, and the chip on the bus.
\<close>

record i2c_client =
  match_chip :: chip_ids
  of_node :: "of_child list option"
  platdata :: "ads1015_channel_data list option"
  client_irq :: int
  irq_trigger_type :: nat
  chip :: regmap

text \<open>The outcomes of the kernel calls of \<^verbatim>\<open>ads1015_probe\<close> that can fail.\<close>

record kernel_results =
  iio_device_alloc_ok :: bool
  regmap_init_i2c :: "errno option"
  kfifo_allocate_ok :: bool
  request_threaded_irq :: "errno option"
  pm_runtime_set_active :: "errno option"
  iio_device_register :: "errno option"

definition IRQF_TRIGGER_RISING :: nat where "IRQF_TRIGGER_RISING = 1"
definition IRQF_TRIGGER_FALLING :: nat where "IRQF_TRIGGER_FALLING = 2"

fun ads1015_get_channels_config_of_nodes :: "of_child list \<Rightarrow> (ads1015_data, unit) prog" where
  "ads1015_get_channels_config_of_nodes [] data = (Inr (), data)"
| "ads1015_get_channels_config_of_nodes (node # nodes) data =
     (case prop_reg node of
        None \<Rightarrow> ads1015_get_channels_config_of_nodes nodes data
      | Some channel \<Rightarrow>
          if ADS1015_CHANNELS \<le> unat channel
          then ads1015_get_channels_config_of_nodes nodes data
          else if (case prop_gain node of None \<Rightarrow> False | Some g \<Rightarrow> 6 < g)
          then (Inl (Errno EINVAL), data)
          else if (case prop_datarate node of None \<Rightarrow> False | Some r \<Rightarrow> 7 < r)
          then (Inl (Errno EINVAL), data)
          else if length (channel_data data) \<le> unat channel then (Inl Undefined, data)
          else
            ads1015_get_channels_config_of_nodes nodes
              (data\<lparr>channel_data := (channel_data data)[unat channel :=
                 (channel_data data ! unat channel)
                   \<lparr>pga := (case prop_gain node of None \<Rightarrow> ADS1015_DEFAULT_PGA | Some g \<Rightarrow> g),
                    data_rate := (case prop_datarate node of
                                    None \<Rightarrow> ADS1015_DEFAULT_DATA_RATE | Some r \<Rightarrow> r)\<rparr>]\<rparr>))"

definition ads1015_get_channels_config_of :: "i2c_client \<Rightarrow> (ads1015_data, unit) prog" where
  "ads1015_get_channels_config_of client =
     (case of_node client of
        None \<Rightarrow> throwE (Errno EINVAL)
      | Some [] \<Rightarrow> throwE (Errno EINVAL)
      | Some nodes \<Rightarrow> ads1015_get_channels_config_of_nodes nodes)"

definition ads1015_get_channels_config :: "i2c_client \<Rightarrow> ads1015_data \<Rightarrow> ads1015_data" where
  "ads1015_get_channels_config client data =
     (case platdata client of
        Some cds \<Rightarrow> data\<lparr>channel_data := take ADS1015_CHANNELS cds\<rparr>
      | None \<Rightarrow>
          (case ads1015_get_channels_config_of client data of
             (Inr _, data') \<Rightarrow> data'
           | (Inl _, data') \<Rightarrow>
               data'\<lparr>channel_data :=
                 map (\<lambda>cd. cd\<lparr>pga := ADS1015_DEFAULT_PGA, data_rate := ADS1015_DEFAULT_DATA_RATE\<rparr>)
                   (channel_data data')\<rparr>))"

text \<open>A kernel call whose outcome is given: it fails with its error or does nothing.\<close>

definition kernel_call :: "errno option \<Rightarrow> ('s, unit) prog" where
  "kernel_call r = (case r of Some e \<Rightarrow> throwE (Errno e) | None \<Rightarrow> returnE ())"

definition ads1015_probe_irq :: "nat \<Rightarrow> errno option \<Rightarrow> (ads1015_data, unit) prog" where
  "ads1015_probe_irq irq_type request =
     (if irq_type = IRQF_TRIGGER_RISING \<or> irq_type = IRQF_TRIGGER_FALLING
      then kernel_call request
      else throwE (Errno EINVAL))"

text \<open>
  The data of a new device: \<^verbatim>\<open>devm_iio_device_alloc\<close> clears it, and the device is
  not yet runtime active.
\<close>

definition zeroed_data :: "regmap \<Rightarrow> ads1015_data" where
  "zeroed_data m =
     \<lparr>regmap = m,
      channel_data = replicate ADS1015_CHANNELS \<lparr>enabled = False, pga = 0, data_rate = 0\<rparr>,
      data_rate_tab = [], conv_invalid = False, irq = 0, timestamp = 0, use_buffer = False,
      usage_count = 0, runtime_suspended = True, trace = []\<rparr>"

text \<open>
  \<^verbatim>\<open>ads1015_probe\<close> after the allocations: the ready pin, the conversion mode, the
  interrupt, the runtime power management and the registration of the device.
\<close>

definition ads1015_probe_device :: "i2c_client \<Rightarrow> kernel_results \<Rightarrow> (ads1015_data, unit) prog" where
  "ads1015_probe_device client k =
     bindE ads1015_set_conv_ready_pin (\<lambda>_.
     bindE (ads1015_set_conv_mode ADS1015_CONTINUOUS) (\<lambda>_.
     bindE (if 0 < client_irq client
            then bindE (modifyE (\<lambda>d. d\<lparr>irq := client_irq client\<rparr>)) (\<lambda>_.
                 ads1015_probe_irq (irq_trigger_type client) (request_threaded_irq k))
            else returnE ()) (\<lambda>_.
     bindE (modifyE (\<lambda>d. d\<lparr>conv_invalid := True\<rparr>)) (\<lambda>_.
     bindE (kernel_call (pm_runtime_set_active k)) (\<lambda>_.
     bindE (modifyE (\<lambda>d. d\<lparr>runtime_suspended := False\<rparr>)) (\<lambda>_.
     kernel_call (iio_device_register k)))))))"

definition ads1015_probe :: "i2c_client \<Rightarrow> kernel_results \<Rightarrow> error + iio_dev" where
  "ads1015_probe client k =
     (if \<not> iio_device_alloc_ok k then Inl (Errno ENOMEM)
      else
        let data = (zeroed_data (chip client))
              \<lparr>data_rate_tab := (case match_chip client of
                                   ADS1015 \<Rightarrow> ads1015_data_rate
                                 | ADS1115 \<Rightarrow> ads1115_data_rate)\<rparr>;
            data = ads1015_get_channels_config client data
        in case regmap_init_i2c k of
             Some e \<Rightarrow> Inl (Errno e)
           | None \<Rightarrow>
               (let data = data\<lparr>use_buffer := False\<rparr>
                in if \<not> kfifo_allocate_ok k then Inl (Errno ENOMEM)
                   else
                     (case ads1015_probe_device client k data of
                        (Inl e, data') \<Rightarrow> Inl e
                      | (Inr u, data') \<Rightarrow>
                          Inr \<lparr>priv = data', buffer_enabled = False, active_scan_mask = [],
                               masklength = ADS1015_TIMESTAMP + 1, pushed = []\<rparr>)))"

section \<open>Notions used to state the properties\<close>

text \<open>The error of the next transfer, if it fails; and: the first \<open>n\<close> transfers succeed.\<close>

definition next_fault :: "errno option list \<Rightarrow> errno option" where
  "next_fault xs = (case xs of Some e # rest \<Rightarrow> Some e | _ \<Rightarrow> None)"

definition xfer_ok :: "nat \<Rightarrow> errno option list \<Rightarrow> bool" where
  "xfer_ok n xs = list_all (\<lambda>x. x = None) (take n xs)"

text \<open>
  The configuration word in the chip; the mux, gain and rate fields that
  \<^verbatim>\<open>channel_data[chan]\<close> asks for; and the old word with these three fields replaced.
\<close>

definition cfg_old :: "ads1015_data \<Rightarrow> 32 word" where
  "cfg_old d = ucast (cfg_reg (regmap d))"

definition cfg_desired :: "ads1015_data \<Rightarrow> 32 word \<Rightarrow> 32 word" where
  "cfg_desired d chan =
     (push_bit ADS1015_CFG_MUX_SHIFT chan
      OR push_bit ADS1015_CFG_PGA_SHIFT (pga (channel_data d ! unat chan))
      OR push_bit ADS1015_CFG_DR_SHIFT (data_rate (channel_data d ! unat chan)))
     AND cfg_fields_mask"

definition cfg_merged :: "ads1015_data \<Rightarrow> 32 word \<Rightarrow> 32 word" where
  "cfg_merged d chan = (cfg_old d AND NOT cfg_fields_mask) OR cfg_desired d chan"

definition cfg_mux :: "32 word \<Rightarrow> 32 word" where
  "cfg_mux cfg = drop_bit ADS1015_CFG_MUX_SHIFT (cfg AND ADS1015_CFG_MUX_MASK)"

definition cfg_pga :: "32 word \<Rightarrow> 32 word" where
  "cfg_pga cfg = drop_bit ADS1015_CFG_PGA_SHIFT (cfg AND ADS1015_CFG_PGA_MASK)"

definition cfg_dr :: "32 word \<Rightarrow> 32 word" where
  "cfg_dr cfg = drop_bit ADS1015_CFG_DR_SHIFT (cfg AND ADS1015_CFG_DR_MASK)"

definition cfg_comp_que :: "32 word \<Rightarrow> 32 word" where
  "cfg_comp_que cfg = drop_bit ADS1015_CFG_COMP_QUE_SHIFT (cfg AND ADS1015_CFG_COMP_QUE_MASK)"

text \<open>The rate in Hz at an index of the rate table of the chip.\<close>

definition rate_hz :: "ads1015_data \<Rightarrow> 32 word \<Rightarrow> nat" where
  "rate_hz d i = unat (data_rate_tab d ! unat i)"

text \<open>
  The settling delay in the words of the specification:
  \<^verbatim>\<open>ceil(1e6 / rate_hz(old_rate_index)) + ceil(1e6 / rate_hz(new_rate_index))\<close>
  microseconds, and a tenth of that on top. \<open>settling_delay\<close> keeps the whole
  microseconds of the tenth; \<open>settling_delay_rounded_up\<close> rounds the inflated sum up.
\<close>

definition settling_sum :: "nat \<Rightarrow> nat \<Rightarrow> nat" where
  "settling_sum hz_old hz_new =
     nat \<lceil>1000000 / real hz_old\<rceil> + nat \<lceil>1000000 / real hz_new\<rceil>"

definition settling_delay :: "nat \<Rightarrow> nat \<Rightarrow> nat" where
  "settling_delay hz_old hz_new =
     settling_sum hz_old hz_new + settling_sum hz_old hz_new div 10"

definition settling_delay_rounded_up :: "nat \<Rightarrow> nat \<Rightarrow> nat" where
  "settling_delay_rounded_up hz_old hz_new =
     nat \<lceil>real (settling_sum hz_old hz_new) * 11 / 10\<rceil>"

text \<open>The delay that an acquisition on \<open>chan\<close> computes in state \<open>d\<close>.\<close>

definition acquisition_delay :: "ads1015_data \<Rightarrow> 32 word \<Rightarrow> nat" where
  "acquisition_delay d chan =
     settling_delay (rate_hz d (cfg_dr (cfg_old d)))
       (rate_hz d (data_rate (channel_data d ! unat chan)))"

text \<open>The events between two states, and the sleeps among events.\<close>

definition events_since :: "ads1015_data \<Rightarrow> ads1015_data \<Rightarrow> event list" where
  "events_since d d' = drop (length (trace d)) (trace d')"

fun is_sleep :: "event \<Rightarrow> bool" where
  "is_sleep (USleep a b) = True"
| "is_sleep (BusRead r) = False"
| "is_sleep (BusWrite r v) = False"

text \<open>
  The data of a driver that was probed: eight channels, every gain and rate index
  below 8, and the rate table of one of the two chips.
\<close>

definition wf_data :: "ads1015_data \<Rightarrow> bool" where
  "wf_data d \<longleftrightarrow>
     length (channel_data d) = ADS1015_CHANNELS
     \<and> list_all (\<lambda>cd. pga cd < 8 \<and> data_rate cd < 8) (channel_data d)
     \<and> (data_rate_tab d = ads1015_data_rate \<or> data_rate_tab d = ads1115_data_rate)"

section \<open>Example states\<close>

text \<open>
  An ADS1015 after power-up (the reset values of the data sheet, with a sample in the
  conversion register) behind a bus without faults, probed with neither platform data
  nor a device tree node, so every channel has the default gain and rate.
\<close>

definition chip_reset :: regmap where
  "chip_reset = \<lparr>conv_reg = 0x1230, cfg_reg = 0x8583, lo_thresh_reg = 0x8000,
                 hi_thresh_reg = 0x7FFF, xfer = []\<rparr>"

definition client0 :: i2c_client where
  "client0 = \<lparr>match_chip = ADS1015, of_node = None, platdata = None, client_irq = 17,
              irq_trigger_type = IRQF_TRIGGER_FALLING, chip = chip_reset\<rparr>"

definition kernel_ok :: kernel_results where
  "kernel_ok = \<lparr>iio_device_alloc_ok = True, regmap_init_i2c = None, kfifo_allocate_ok = True,
                request_threaded_irq = None, pm_runtime_set_active = None,
                iio_device_register = None\<rparr>"

definition probed_data :: ads1015_data where
  "probed_data =
     \<lparr>regmap = \<lparr>conv_reg = 0x1230, cfg_reg = 0x8480, lo_thresh_reg = 0,
                hi_thresh_reg = 0xFFFF, xfer = []\<rparr>,
      channel_data = replicate 8 \<lparr>enabled = False, pga = 2, data_rate = 4\<rparr>,
      data_rate_tab = ads1015_data_rate, conv_invalid = True, irq = 17, timestamp = 0,
      use_buffer = False, usage_count = 0, runtime_suspended = False,
      trace = [BusWrite 2 0, BusWrite 3 0xFFFF, BusRead 1, BusWrite 1 0x8580,
               BusRead 1, BusWrite 1 0x8480]\<rparr>"

definition probed :: iio_dev where
  "probed = \<lparr>priv = probed_data, buffer_enabled = False, active_scan_mask = [],
             masklength = 9, pushed = []\<rparr>"

text \<open>The same driver after a first acquisition: the conversion is valid.\<close>

definition settled_data :: ads1015_data where
  "settled_data = probed_data\<lparr>conv_invalid := False\<rparr>"

text \<open>
  Buffered capture of channel 2 in its steady state, on a bus whose next transfer
  fails.
\<close>

definition steady_failing :: iio_dev where
  "steady_failing =
     \<lparr>priv = settled_data\<lparr>use_buffer := True,
               regmap := (regmap settled_data)\<lparr>cfg_reg := 0xA480, xfer := [Some EIO]\<rparr>\<rparr>,
      buffer_enabled = True, active_scan_mask = [False, False, True],
      masklength = 9, pushed = [(0x1230, 0)]\<rparr>"

text \<open>
  The driver runtime suspended: the chip in single-shot mode; the same on a bus whose
  next transfer fails; and a suspended driver whose chip is in continuous mode already.
\<close>

definition suspended_data :: ads1015_data where
  "suspended_data =
     settled_data\<lparr>regmap := (regmap settled_data)\<lparr>cfg_reg := 0x8580\<rparr>,
                   runtime_suspended := True\<rparr>"

definition suspended_failing :: ads1015_data where
  "suspended_failing =
     suspended_data\<lparr>regmap := (regmap suspended_data)\<lparr>xfer := [Some EIO]\<rparr>\<rparr>"

definition suspended_continuous :: ads1015_data where
  "suspended_continuous = settled_data\<lparr>runtime_suspended := True\<rparr>"

text \<open>The data of a new device on a chip after power-up, with the given bus outcomes.\<close>

definition faulty_reset :: "errno option list \<Rightarrow> ads1015_data" where
  "faulty_reset xs = zeroed_data (chip_reset\<lparr>xfer := xs\<rparr>)"





text \<open>
  The values that the integers exchanged with the IIO core stand for. The scale
  attribute is written as an integer and a number of millionths
  (\<^verbatim>\<open>IIO_VAL_INT_PLUS_MICRO\<close>): \<open>scale_micro\<close> is the scale written in millionths,
  \<open>written_scale\<close> the scale itself. A result \<^verbatim>\<open>IIO_VAL_INT\<close> of \<^verbatim>\<open>read_raw\<close> stands for
  the integer, and \<^verbatim>\<open>IIO_VAL_FRACTIONAL_LOG2\<close> for \<^verbatim>\<open>val / 2 ^ val2\<close>.
\<close>

definition scale_micro :: "32 word \<Rightarrow> 32 word \<Rightarrow> int" where
  "scale_micro val val2 = sint val * 1000000 + sint val2"

definition written_scale :: "32 word \<Rightarrow> 32 word \<Rightarrow> real" where
  "written_scale val val2 = real_of_int (scale_micro val val2) / 1000000"

fun iio_value :: "iio_val \<Rightarrow> real" where
  "iio_value (IIO_VAL_INT v) = real_of_int (sint v)"
| "iio_value (IIO_VAL_FRACTIONAL_LOG2 v s) = real_of_int (sint v) / 2 ^ s"

text \<open>
  The suspended driver on a bus whose first transfer succeeds and whose second transfer
  fails.
\<close>

definition suspended_write_failing :: ads1015_data where
  "suspended_write_failing =
     suspended_data\<lparr>regmap := (regmap suspended_data)\<lparr>xfer := [None, Some EREMOTEIO]\<rparr>\<rparr>"

text \<open>The same client with an ADS1115, and the driver that was probed for it.\<close>

definition client1115 :: i2c_client where
  "client1115 = client0\<lparr>match_chip := ADS1115\<rparr>"

definition probed1115 :: iio_dev where
  "probed1115 = probed\<lparr>priv := probed_data\<lparr>data_rate_tab := ads1115_data_rate\<rparr>\<rparr>"





section \<open>Constants and bit fields\<close>

lemmas reg_defs = ADS1015_CONV_REG_def ADS1015_CFG_REG_def ADS1015_LO_THRESH_REG_def
  ADS1015_HI_THRESH_REG_def max_register_def

lemmas shift_defs = ADS1015_CFG_COMP_QUE_SHIFT_def ADS1015_CFG_DR_SHIFT_def
  ADS1015_CFG_MOD_SHIFT_def ADS1015_CFG_PGA_SHIFT_def ADS1015_CFG_MUX_SHIFT_def

lemmas mask_defs = cfg_fields_mask_def ADS1015_CFG_MUX_MASK_def ADS1015_CFG_PGA_MASK_def
  ADS1015_CFG_DR_MASK_def ADS1015_CFG_MOD_MASK_def ADS1015_CFG_COMP_QUE_MASK_def GENMASK_def BIT_def

lemmas prog_defs = bindE_def returnE_def throwE_def modifyE_def log_event_def

lemma mask_values:
  "ADS1015_CFG_MUX_MASK = 0x7000" "ADS1015_CFG_PGA_MASK = 0xE00" "ADS1015_CFG_DR_MASK = 0xE0"
  "ADS1015_CFG_MOD_MASK = 0x100" "ADS1015_CFG_COMP_QUE_MASK = 3" "cfg_fields_mask = 0x7EE0"
  by (simp_all add: mask_defs mask_eq_exp_minus_1)

lemma valid_chan:
  assumes "\<not> (chan <s 0 \<or> of_nat ADS1015_CHANNELS \<le>s chan)"
  shows "unat (chan :: 32 word) < ADS1015_CHANNELS"
proof -
  from assms have a: "0 \<le> sint chan" "sint chan < 8"
    by (simp_all add: word_sless_alt word_sle_eq ADS1015_CHANNELS_def)
  have "uint chan = take_bit 32 (sint chan)" using uint_sint [of chan] by simp
  also have "\<dots> = sint chan" using a by (simp add: take_bit_int_eq_self)
  finally have "uint chan < 8" using a by simp
  then show ?thesis by (simp only: unat_eq_nat_uint ADS1015_CHANNELS_def)
qed

lemma valid_chan_conv:
  assumes "unat (chan :: 32 word) < ADS1015_CHANNELS"
  shows "\<not> (chan <s 0 \<or> of_nat ADS1015_CHANNELS \<le>s chan)"
proof -
  have "int (unat chan) = uint chan" by simp
  moreover from assms have "unat chan < 8" by (simp add: ADS1015_CHANNELS_def)
  ultimately have u: "0 \<le> uint chan" "uint chan < 8" by linarith+
  have "sint chan = signed_take_bit 31 (uint chan)" using sint_uint [of chan] by simp
  also have "\<dots> = uint chan"
  proof (rule signed_take_bit_int_eq_self)
    show "- (2 ^ 31) \<le> uint chan" by (rule order_trans [of _ 0]) simp_all
    show "uint chan < 2 ^ 31" using u by simp
  qed
  finally show ?thesis using u by (simp add: word_sless_alt word_sle_eq ADS1015_CHANNELS_def)
qed

lemma chan_check_iff:
  "(chan <s 0 \<or> of_nat ADS1015_CHANNELS \<le>s chan) \<longleftrightarrow> \<not> unat (chan :: 32 word) < ADS1015_CHANNELS"
  using valid_chan [of chan] valid_chan_conv [of chan] by blast

lemma word_less_8_take_bit: "(x :: 32 word) < 8 \<Longrightarrow> take_bit 3 x = x"
  using less_mask_eq [of x 3] by (simp add: take_bit_eq_mask)

lemma unat_less_8: "(x :: 32 word) < 8 \<Longrightarrow> unat x < 8"
  by (simp add: word_less_nat_alt)

lemma ucast_ucast_16_32: "ucast (ucast (w :: 16 word) :: 32 word) = w"
  by (auto simp add: bit_eq_iff bit_ucast_iff dest: bit_imp_le_length)

lemma cfg_dr_bound: "unat (cfg_dr x) < 8"
proof -
  have "drop_bit 5 (x AND 0xE0) = drop_bit 5 x AND 7" by (simp add: bit_eq_iff bit_simps)
  moreover have "unat (drop_bit 5 x AND 7) \<le> unat (7 :: 32 word)"
    by (rule word_and_le1 [THEN word_le_nat_alt [THEN iffD1]])
  ultimately show ?thesis by (simp add: cfg_dr_def mask_values ADS1015_CFG_DR_SHIFT_def)
qed

text \<open>The merged word: the three fields are the desired ones, the other bits the old ones.\<close>

lemma merged_fields: "cfg_merged d chan AND cfg_fields_mask = cfg_desired d chan"
  by (auto simp add: cfg_merged_def cfg_desired_def bit_eq_iff bit_and_iff bit_or_iff bit_not_iff)

lemma merged_rest: "cfg_merged d chan AND NOT cfg_fields_mask = cfg_old d AND NOT cfg_fields_mask"
  by (auto simp add: cfg_merged_def cfg_desired_def bit_eq_iff bit_and_iff bit_or_iff bit_not_iff)

lemma merged_neq_iff:
  "cfg_old d \<noteq> cfg_merged d chan \<longleftrightarrow> cfg_old d AND cfg_fields_mask \<noteq> cfg_desired d chan"
  unfolding cfg_merged_def cfg_desired_def
  by (auto simp: bit_eq_iff bit_and_iff bit_or_iff bit_not_iff)

lemma merged_decode:
  fixes chan :: "32 word"
  assumes "chan < 8" "pga (channel_data d ! unat chan) < 8" "data_rate (channel_data d ! unat chan) < 8"
  shows "cfg_mux (cfg_merged d chan) = chan"
    and "cfg_pga (cfg_merged d chan) = pga (channel_data d ! unat chan)"
    and "cfg_dr (cfg_merged d chan) = data_rate (channel_data d ! unat chan)"
proof -
  define p r where "p = pga (channel_data d ! unat chan)" and "r = data_rate (channel_data d ! unat chan)"
  have t: "take_bit 3 chan = chan" "take_bit 3 p = p" "take_bit 3 r = r"
    using assms by (simp_all add: word_less_8_take_bit p_def r_def)
  let ?m = "\<lambda>c p r. (cfg_old d AND NOT cfg_fields_mask) OR
     ((push_bit ADS1015_CFG_MUX_SHIFT c OR push_bit ADS1015_CFG_PGA_SHIFT p OR push_bit ADS1015_CFG_DR_SHIFT r)
      AND cfg_fields_mask)"
  have "cfg_mux (?m (take_bit 3 chan) (take_bit 3 p) (take_bit 3 r)) = take_bit 3 chan"
    by (auto simp add: cfg_mux_def bit_eq_iff bit_simps mask_defs shift_defs)
  moreover have "cfg_pga (?m (take_bit 3 chan) (take_bit 3 p) (take_bit 3 r)) = take_bit 3 p"
    by (auto simp add: cfg_pga_def bit_eq_iff bit_simps mask_defs shift_defs)
  moreover have "cfg_dr (?m (take_bit 3 chan) (take_bit 3 p) (take_bit 3 r)) = take_bit 3 r"
    by (auto simp add: cfg_dr_def bit_eq_iff bit_simps mask_defs shift_defs)
  ultimately show "cfg_mux (cfg_merged d chan) = chan"
    and "cfg_pga (cfg_merged d chan) = pga (channel_data d ! unat chan)"
    and "cfg_dr (cfg_merged d chan) = data_rate (channel_data d ! unat chan)"
    by (simp_all only: t cfg_merged_def cfg_desired_def p_def [symmetric] r_def [symmetric])
qed

section \<open>Rounding\<close>

lemma div_round_up_cases:
  fixes n d :: nat
  assumes d: "0 < d"
  shows "(n + d - 1) div d = (if n mod d = 0 then n div d else Suc (n div d))"
proof -
  define q r where "q = n div d" and "r = n mod d"
  have n: "n = r + q * d" and r: "r < d" using d by (simp_all add: q_def r_def)
  show ?thesis
  proof (cases "r = 0")
    case True
    have e: "n + d - 1 = (d - 1) + q * d" using True n d by simp
    have "((d - 1) + q * d) div d = q + (d - 1) div d" using d by (intro div_mult_self1) simp
    moreover have "(d - 1) div d = 0" using d by simp
    ultimately have "(n + d - 1) div d = q" by (simp only: e)
    with True show ?thesis by (simp add: q_def r_def)
  next
    case False
    have e: "n + d - 1 = (r - 1) + (Suc q) * d" using False n d by simp
    have "((r - 1) + (Suc q) * d) div d = Suc q + (r - 1) div d" using d by (intro div_mult_self1) simp
    moreover have "(r - 1) div d = 0" using r by simp
    ultimately have "(n + d - 1) div d = Suc q" by (simp only: e)
    with False show ?thesis by (simp add: q_def r_def)
  qed
qed

lemma DIV_ROUND_UP_ceiling:
  assumes "0 < d"
  shows "DIV_ROUND_UP n d = nat \<lceil>real n / real d\<rceil>"
proof -
  have "\<lceil>real n / real d\<rceil> = - (- int n div int d)"
    using ceiling_divide_eq_div [of "int n" "int d", where ?'a = real] by simp
  also have "\<dots> = (if int n mod int d = 0 then int n div int d else int n div int d + 1)"
    using assms by (simp add: zdiv_zminus1_eq_if)
  also have "\<dots> = int (if n mod d = 0 then n div d else Suc (n div d))"
  proof -
    have "int n mod int d = int (n mod d)" "int n div int d = int (n div d)"
      by (simp_all add: zmod_int zdiv_int)
    then show ?thesis by (simp only: of_nat_eq_0_iff) simp
  qed
  finally show ?thesis
    unfolding DIV_ROUND_UP_def div_round_up_cases [OF assms] by simp
qed

lemma conv_time_settling_delay:
  assumes "i < length tab" "j < length tab" "tab ! i \<noteq> 0" "tab ! j \<noteq> 0"
  shows "conv_time tab i j = Some (settling_delay (unat (tab ! i)) (unat (tab ! j)))"
proof -
  have "0 < unat (tab ! i)" "0 < unat (tab ! j)" using assms by (simp_all add: unat_gt_0)
  then show ?thesis using assms
    by (simp add: conv_time_def settling_delay_def settling_sum_def Let_def DIV_ROUND_UP_ceiling USEC_PER_SEC_def)
qed

lemma rate_tables:
  "length ads1015_data_rate = 8" "length ads1115_data_rate = 8"
  "0 \<notin> set ads1015_data_rate" "0 \<notin> set ads1115_data_rate"
  by (simp_all add: ads1015_data_rate_def ads1115_data_rate_def)

lemma wf_rate_nonzero:
  assumes "wf_data d" "i < 8"
  shows "data_rate_tab d ! i \<noteq> 0"
proof -
  have "length (data_rate_tab d) = 8" "0 \<notin> set (data_rate_tab d)"
    using assms(1) rate_tables by (auto simp add: wf_data_def)
  then show ?thesis using assms(2) by (metis nth_mem)
qed

lemma wf_lengths:
  "wf_data d \<Longrightarrow> length (channel_data d) = 8" "wf_data d \<Longrightarrow> length (data_rate_tab d) = 8"
  using rate_tables by (auto simp add: wf_data_def ADS1015_CHANNELS_def)

lemma wf_indices:
  assumes "wf_data d" "i < 8"
  shows "pga (channel_data d ! i) < 8" "data_rate (channel_data d ! i) < 8"
  using assms nth_mem [of i "channel_data d"]
  by (auto simp add: wf_data_def list_all_iff ADS1015_CHANNELS_def)

lemma acquisition_delay_wf:
  assumes "wf_data d" "unat chan < ADS1015_CHANNELS"
  shows "conv_time (data_rate_tab d) (unat (cfg_dr (cfg_old d)))
           (unat (data_rate (channel_data d ! unat chan))) = Some (acquisition_delay d chan)"
proof -
  have c: "unat chan < 8" using assms by (simp add: ADS1015_CHANNELS_def)
  have i: "unat (cfg_dr (cfg_old d)) < 8" by (rule cfg_dr_bound)
  have j: "unat (data_rate (channel_data d ! unat chan)) < 8"
    using wf_indices(2) [OF assms(1) c] by (rule unat_less_8)
  show ?thesis
    unfolding acquisition_delay_def rate_hz_def
    by (rule conv_time_settling_delay)
      (use assms i j in \<open>simp_all add: wf_lengths wf_rate_nonzero\<close>)
qed

section \<open>The bus\<close>

lemma xfer_ok_0: "xfer_ok 0 xs"
  by (simp add: xfer_ok_def)

lemma xfer_ok_Suc: "xfer_ok (Suc n) xs \<longleftrightarrow> next_fault xs = None \<and> xfer_ok n (tl xs)"
  by (cases xs) (auto simp add: xfer_ok_def next_fault_def split: option.splits)

lemma xfer_ok_Nil: "xfer_ok n []"
  by (simp add: xfer_ok_def)

lemma bus_xfer_eq:
  "bus_xfer d =
     ((case next_fault (xfer (regmap d)) of Some e \<Rightarrow> Inl (Errno e) | None \<Rightarrow> Inr ()),
      d\<lparr>regmap := (regmap d)\<lparr>xfer := tl (xfer (regmap d))\<rparr>\<rparr>)"
  by (simp add: bus_xfer_def next_fault_def Let_def split: list.splits option.splits)

lemma regmap_read_eq:
  assumes "reg \<le> 3"
  shows "regmap_read reg d =
     ((case next_fault (xfer (regmap d)) of
         Some e \<Rightarrow> Inl (Errno e)
       | None \<Rightarrow> Inr (ucast (reg_get (regmap d) reg))),
      d\<lparr>regmap := (regmap d)\<lparr>xfer := tl (xfer (regmap d))\<rparr>, trace := trace d @ [BusRead reg]\<rparr>)"
  using assms
  by (simp add: regmap_read_def reg_defs prog_defs bus_xfer_eq reg_get_def split: option.splits)

lemma regmap_write_eq:
  assumes "reg = 1 \<or> reg = 2 \<or> reg = 3"
  shows "regmap_write reg v d =
     (case next_fault (xfer (regmap d)) of
        Some e \<Rightarrow> (Inl (Errno e),
           d\<lparr>regmap := (regmap d)\<lparr>xfer := tl (xfer (regmap d))\<rparr>,
             trace := trace d @ [BusWrite reg (ucast v)]\<rparr>)
      | None \<Rightarrow> (Inr (),
           d\<lparr>regmap := reg_set reg (ucast v) ((regmap d)\<lparr>xfer := tl (xfer (regmap d))\<rparr>),
             trace := trace d @ [BusWrite reg (ucast v)]\<rparr>))"
  using assms
  by (auto simp add: regmap_write_def reg_defs prog_defs bus_xfer_eq reg_set_def
      ads1015_is_writeable_reg_def split: option.splits)

lemma drop_tl: "drop 2 xs = tl (tl xs)" "drop 3 xs = tl (tl (tl xs))" "drop 4 xs = tl (tl (tl (tl xs)))"
  by (simp_all add: numeral_2_eq_2 numeral_3_eq_3 drop_Suc eval_nat_numeral)

section \<open>The conversion controller\<close>

text \<open>
  What \<^verbatim>\<open>ads1015_get_adc_result\<close> does on a valid channel when no transfer fails: with
  a configuration to change, and with the configuration current.
\<close>

lemma adc_result_changed:
  assumes chan: "unat chan < ADS1015_CHANNELS"
    and len: "length (channel_data d) = ADS1015_CHANNELS"
    and t: "conv_time (data_rate_tab d) (unat (cfg_dr (cfg_old d)))
              (unat (data_rate (channel_data d ! unat chan))) = Some t"
    and ok: "xfer_ok 3 (xfer (regmap d))"
    and ne: "cfg_old d AND cfg_fields_mask \<noteq> cfg_desired d chan"
  shows "ads1015_get_adc_result chan d =
     (Inr (ucast (conv_reg (regmap d))),
      d\<lparr>regmap := (regmap d)\<lparr>cfg_reg := ucast (cfg_merged d chan),
                                xfer := drop 3 (xfer (regmap d))\<rparr>,
        conv_invalid := False,
        trace := trace d @ [BusRead ADS1015_CFG_REG,
                            BusWrite ADS1015_CFG_REG (ucast (cfg_merged d chan)),
                            USleep t (t + 1), BusRead ADS1015_CONV_REG]\<rparr>)"
proof -
  have v: "\<not> (chan <s 0 \<or> of_nat ADS1015_CHANNELS \<le>s chan)"
    using chan by (rule valid_chan_conv)
  have oks: "next_fault (xfer (regmap d)) = None" "next_fault (tl (xfer (regmap d))) = None"
    "next_fault (tl (tl (xfer (regmap d)))) = None"
    using ok by (simp_all add: numeral_3_eq_3 xfer_ok_Suc)
  have m: "cfg_old d \<noteq> cfg_merged d chan" using ne by (simp add: merged_neq_iff)
  show ?thesis
    using v chan len m oks t [unfolded cfg_dr_def]
    by (simp add: ads1015_get_adc_result_def prog_defs Let_def regmap_read_eq regmap_write_eq
        usleep_range_def reg_get_def reg_set_def reg_defs drop_tl
        cfg_old_def [symmetric]
        cfg_merged_def [symmetric, unfolded cfg_desired_def])
qed

lemma adc_result_current:
  assumes chan: "unat chan < ADS1015_CHANNELS"
    and len: "length (channel_data d) = ADS1015_CHANNELS"
    and t: "conv_time (data_rate_tab d) (unat (cfg_dr (cfg_old d)))
              (unat (data_rate (channel_data d ! unat chan))) = Some t"
    and ok: "xfer_ok 2 (xfer (regmap d))"
    and eq: "cfg_old d AND cfg_fields_mask = cfg_desired d chan"
  shows "ads1015_get_adc_result chan d =
     (Inr (ucast (conv_reg (regmap d))),
      d\<lparr>regmap := (regmap d)\<lparr>xfer := drop 2 (xfer (regmap d))\<rparr>,
        conv_invalid := False,
        trace := trace d @ [BusRead ADS1015_CFG_REG]
                 @ (if conv_invalid d then [USleep t (t + 1)] else [])
                 @ [BusRead ADS1015_CONV_REG]\<rparr>)"
proof -
  have v: "\<not> (chan <s 0 \<or> of_nat ADS1015_CHANNELS \<le>s chan)"
    using chan by (rule valid_chan_conv)
  have oks: "next_fault (xfer (regmap d)) = None" "next_fault (tl (xfer (regmap d))) = None"
    using ok by (simp_all add: numeral_2_eq_2 xfer_ok_Suc)
  have m: "cfg_merged d chan = cfg_old d" using eq merged_neq_iff [of d chan] by auto
  have ci: "\<not> conv_invalid d \<Longrightarrow> d\<lparr>conv_invalid := False\<rparr> = d" by (cases d) simp
  show ?thesis
    using v chan len m oks t [unfolded cfg_dr_def]
    by (simp add: ads1015_get_adc_result_def prog_defs Let_def regmap_read_eq regmap_write_eq
        usleep_range_def reg_get_def reg_set_def reg_defs drop_tl
        cfg_old_def [symmetric]
        cfg_merged_def [symmetric, unfolded cfg_desired_def])
qed

lemma xfer_ok_mono: "xfer_ok (Suc n) xs \<Longrightarrow> xfer_ok n xs"
  using set_take_subset_set_take [of n "Suc n" xs] by (auto simp add: xfer_ok_def list_all_iff)

section \<open>The example states\<close>

lemma probed_fields:
  "cfg_reg (regmap probed_data) = 0x8480" "conv_reg (regmap probed_data) = 0x1230"
  "xfer (regmap probed_data) = []" "conv_invalid probed_data"
  "channel_data probed_data = replicate 8 \<lparr>enabled = False, pga = 2, data_rate = 4\<rparr>"
  "data_rate_tab probed_data = ads1015_data_rate"
  by (simp_all add: probed_data_def)

lemma settled_fields:
  "cfg_reg (regmap settled_data) = 0x8480" "conv_reg (regmap settled_data) = 0x1230"
  "xfer (regmap settled_data) = []" "\<not> conv_invalid settled_data"
  "channel_data settled_data = replicate 8 \<lparr>enabled = False, pga = 2, data_rate = 4\<rparr>"
  "data_rate_tab settled_data = ads1015_data_rate"
  "trace settled_data = trace probed_data"
  by (simp_all add: settled_data_def probed_data_def)

lemma wf_probed_data: "wf_data probed_data" "wf_data settled_data"
  by (simp_all add: wf_data_def probed_fields settled_fields ADS1015_CHANNELS_def list_all_iff)

lemma probed_cfg:
  "cfg_old probed_data = 0x8480" "cfg_old settled_data = 0x8480"
  "cfg_desired probed_data 0 = 0x0480" "cfg_desired settled_data 0 = 0x0480"
  "cfg_desired probed_data 1 = 0x1480" "cfg_desired settled_data 1 = 0x1480"
  by (simp_all add: cfg_old_def cfg_desired_def probed_fields settled_fields mask_values shift_defs)

lemma rate_1600: "settling_delay 1600 1600 = 1375"
  by (simp add: settling_delay_def settling_sum_def)

lemma probed_delay:
  assumes "unat chan < 8"
  shows "acquisition_delay probed_data chan = 1375" "acquisition_delay settled_data chan = 1375"
proof -
  have "cfg_dr (0x8480 :: 32 word) = 4"
    by (simp add: cfg_dr_def mask_values shift_defs)
  then show "acquisition_delay probed_data chan = 1375" "acquisition_delay settled_data chan = 1375"
    using assms
    by (simp_all add: acquisition_delay_def rate_hz_def probed_cfg probed_fields settled_fields
        ads1015_data_rate_def rate_1600)
qed

text \<open>
  C1: For every valid channel, \<^verbatim>\<open>ads1015_get_adc_result\<close> follows the reconciliation
  algorithm: it reads the configuration register; if the desired mux, gain and rate
  fields computed from \<^verbatim>\<open>channel_data[chan]\<close> differ from the current ones it writes
  the merged word (the old word with only mux, gain and rate replaced) and sets
  \<^verbatim>\<open>conv_invalid\<close>; then, whenever \<^verbatim>\<open>conv_invalid\<close> is set, it sleeps for
  \<^verbatim>\<open>ceil(1e6 / rate_hz(old_rate_index)) + ceil(1e6 / rate_hz(new_rate_index))\<close>
  microseconds inflated by 10\%, clears \<^verbatim>\<open>conv_invalid\<close>, and finally reads and
  returns the conversion register. Stated for the data of a probed driver, while no
  transfer on the bus fails.
\<close>

theorem get_adc_result_reconciles:
  assumes "unat chan < ADS1015_CHANNELS" and "wf_data d" and "xfer_ok 3 (xfer (regmap d))"
  shows "ads1015_get_adc_result chan d =
     (Inr (ucast (conv_reg (regmap d))),
      d\<lparr>regmap := (regmap d)
           \<lparr>cfg_reg := ucast (cfg_merged d chan),
            xfer := drop (if cfg_old d AND cfg_fields_mask \<noteq> cfg_desired d chan then 3 else 2)
                      (xfer (regmap d))\<rparr>,
        conv_invalid := False,
        trace := trace d @ [BusRead ADS1015_CFG_REG]
           @ (if cfg_old d AND cfg_fields_mask \<noteq> cfg_desired d chan
              then [BusWrite ADS1015_CFG_REG (ucast (cfg_merged d chan))] else [])
           @ (if cfg_old d AND cfg_fields_mask \<noteq> cfg_desired d chan \<or> conv_invalid d
              then [USleep (acquisition_delay d chan) (acquisition_delay d chan + 1)] else [])
           @ [BusRead ADS1015_CONV_REG]\<rparr>)
     \<and> cfg_merged d chan AND cfg_fields_mask = cfg_desired d chan
     \<and> cfg_merged d chan AND NOT cfg_fields_mask = cfg_old d AND NOT cfg_fields_mask
     \<and> cfg_mux (cfg_merged d chan) = chan
     \<and> cfg_pga (cfg_merged d chan) = pga (channel_data d ! unat chan)
     \<and> cfg_dr (cfg_merged d chan) = data_rate (channel_data d ! unat chan)"
proof -
  have c8: "unat chan < 8" using assms(1) by (simp add: ADS1015_CHANNELS_def)
  then have c: "chan < 8" by (simp add: word_less_nat_alt)
  have len: "length (channel_data d) = ADS1015_CHANNELS"
    using assms(2) by (simp add: wf_data_def)
  note t = acquisition_delay_wf [OF assms(2) assms(1)]
  have ok2: "xfer_ok 2 (xfer (regmap d))"
    using assms(3) xfer_ok_mono [of 2] by (simp add: numeral_3_eq_3 numeral_2_eq_2)
  have run: "ads1015_get_adc_result chan d =
     (Inr (ucast (conv_reg (regmap d))),
      d\<lparr>regmap := (regmap d)
           \<lparr>cfg_reg := ucast (cfg_merged d chan),
            xfer := drop (if cfg_old d AND cfg_fields_mask \<noteq> cfg_desired d chan then 3 else 2)
                      (xfer (regmap d))\<rparr>,
        conv_invalid := False,
        trace := trace d @ [BusRead ADS1015_CFG_REG]
           @ (if cfg_old d AND cfg_fields_mask \<noteq> cfg_desired d chan
              then [BusWrite ADS1015_CFG_REG (ucast (cfg_merged d chan))] else [])
           @ (if cfg_old d AND cfg_fields_mask \<noteq> cfg_desired d chan \<or> conv_invalid d
              then [USleep (acquisition_delay d chan) (acquisition_delay d chan + 1)] else [])
           @ [BusRead ADS1015_CONV_REG]\<rparr>)"
  proof (cases "cfg_old d AND cfg_fields_mask \<noteq> cfg_desired d chan")
    case True
    then show ?thesis
      using adc_result_changed [OF assms(1) len t assms(3) True] by simp
  next
    case False
    then have eq: "cfg_old d AND cfg_fields_mask = cfg_desired d chan" by simp
    then have "cfg_merged d chan = cfg_old d"
      using merged_neq_iff [of d chan] by auto
    then have m: "ucast (cfg_merged d chan) = cfg_reg (regmap d)"
      by (simp add: cfg_old_def ucast_ucast_16_32)
    show ?thesis
      using adc_result_current [OF assms(1) len t ok2 eq] eq by (simp add: m)
  qed
  show ?thesis
    using run merged_fields [of d chan] merged_rest [of d chan]
      merged_decode [OF c wf_indices(1) [OF assms(2) c8] wf_indices(2) [OF assms(2) c8]]
    by simp
qed

theorem get_adc_result_reconciles_witness:
  "unat (1 :: 32 word) < ADS1015_CHANNELS \<and> wf_data probed_data
   \<and> xfer_ok 3 (xfer (regmap probed_data))
   \<and> ads1015_get_adc_result 1 probed_data =
       (Inr 0x1230,
        probed_data\<lparr>regmap := (regmap probed_data)\<lparr>cfg_reg := 0x9480\<rparr>,
          conv_invalid := False,
          trace := trace probed_data @
            [BusRead 1, BusWrite 1 0x9480, USleep 1375 1376, BusRead 0]\<rparr>)"
proof -
  have h: "unat (1 :: 32 word) < ADS1015_CHANNELS" "xfer_ok 3 (xfer (regmap probed_data))"
    by (simp_all add: ADS1015_CHANNELS_def probed_fields xfer_ok_Nil)
  have m: "cfg_merged probed_data 1 = 0x9480"
    by (simp add: cfg_merged_def probed_cfg mask_values)
  show ?thesis
    using h wf_probed_data(1) get_adc_result_reconciles [OF h(1) wf_probed_data(1) h(2)]
    by (simp add: m probed_fields probed_cfg probed_delay mask_values reg_defs)
qed

text \<open>
  A transfer that fails ends \<^verbatim>\<open>ads1015_get_adc_result\<close> with the error of the
  transfer: the read of the configuration, its write, and the read of the conversion.
\<close>

lemma adc_result_cfg_read_fails:
  assumes chan: "unat chan < ADS1015_CHANNELS"
    and f: "next_fault (xfer (regmap d)) = Some e"
  shows "ads1015_get_adc_result chan d =
     (Inl (Errno e),
      d\<lparr>regmap := (regmap d)\<lparr>xfer := tl (xfer (regmap d))\<rparr>,
        trace := trace d @ [BusRead ADS1015_CFG_REG]\<rparr>)"
proof -
  have v: "\<not> (chan <s 0 \<or> of_nat ADS1015_CHANNELS \<le>s chan)"
    using chan by (rule valid_chan_conv)
  show ?thesis
    using v f
    by (simp add: ads1015_get_adc_result_def prog_defs regmap_read_eq reg_defs)
qed

lemma adc_result_cfg_write_fails:
  assumes chan: "unat chan < ADS1015_CHANNELS"
    and len: "length (channel_data d) = ADS1015_CHANNELS"
    and f: "next_fault (xfer (regmap d)) = None" "next_fault (tl (xfer (regmap d))) = Some e"
    and ne: "cfg_old d AND cfg_fields_mask \<noteq> cfg_desired d chan"
  shows "ads1015_get_adc_result chan d =
     (Inl (Errno e),
      d\<lparr>regmap := (regmap d)\<lparr>xfer := drop 2 (xfer (regmap d))\<rparr>,
        trace := trace d @ [BusRead ADS1015_CFG_REG,
                            BusWrite ADS1015_CFG_REG (ucast (cfg_merged d chan))]\<rparr>)"
proof -
  have v: "\<not> (chan <s 0 \<or> of_nat ADS1015_CHANNELS \<le>s chan)"
    using chan by (rule valid_chan_conv)
  have m: "cfg_old d \<noteq> cfg_merged d chan" using ne by (simp add: merged_neq_iff)
  show ?thesis
    using v chan len m f
    by (simp add: ads1015_get_adc_result_def prog_defs Let_def regmap_read_eq regmap_write_eq
        reg_get_def reg_defs drop_tl
        cfg_old_def [symmetric] cfg_merged_def [symmetric, unfolded cfg_desired_def])
qed

lemma adc_result_conv_read_fails_changed:
  assumes chan: "unat chan < ADS1015_CHANNELS"
    and len: "length (channel_data d) = ADS1015_CHANNELS"
    and t: "conv_time (data_rate_tab d) (unat (cfg_dr (cfg_old d)))
              (unat (data_rate (channel_data d ! unat chan))) = Some t"
    and f: "next_fault (xfer (regmap d)) = None" "next_fault (tl (xfer (regmap d))) = None"
      "next_fault (tl (tl (xfer (regmap d)))) = Some e"
    and ne: "cfg_old d AND cfg_fields_mask \<noteq> cfg_desired d chan"
  shows "ads1015_get_adc_result chan d =
     (Inl (Errno e),
      d\<lparr>regmap := (regmap d)\<lparr>cfg_reg := ucast (cfg_merged d chan),
                                xfer := drop 3 (xfer (regmap d))\<rparr>,
        conv_invalid := False,
        trace := trace d @ [BusRead ADS1015_CFG_REG,
                            BusWrite ADS1015_CFG_REG (ucast (cfg_merged d chan)),
                            USleep t (t + 1), BusRead ADS1015_CONV_REG]\<rparr>)"
proof -
  have v: "\<not> (chan <s 0 \<or> of_nat ADS1015_CHANNELS \<le>s chan)"
    using chan by (rule valid_chan_conv)
  have m: "cfg_old d \<noteq> cfg_merged d chan" using ne by (simp add: merged_neq_iff)
  show ?thesis
    using v chan len m f t [unfolded cfg_dr_def]
    by (simp add: ads1015_get_adc_result_def prog_defs Let_def regmap_read_eq regmap_write_eq
        usleep_range_def reg_get_def reg_set_def reg_defs drop_tl
        cfg_old_def [symmetric] cfg_merged_def [symmetric, unfolded cfg_desired_def])
qed

lemma adc_result_conv_read_fails_current:
  assumes chan: "unat chan < ADS1015_CHANNELS"
    and len: "length (channel_data d) = ADS1015_CHANNELS"
    and t: "conv_time (data_rate_tab d) (unat (cfg_dr (cfg_old d)))
              (unat (data_rate (channel_data d ! unat chan))) = Some t"
    and f: "next_fault (xfer (regmap d)) = None" "next_fault (tl (xfer (regmap d))) = Some e"
    and eq: "cfg_old d AND cfg_fields_mask = cfg_desired d chan"
  shows "ads1015_get_adc_result chan d =
     (Inl (Errno e),
      d\<lparr>regmap := (regmap d)\<lparr>xfer := drop 2 (xfer (regmap d))\<rparr>,
        conv_invalid := False,
        trace := trace d @ [BusRead ADS1015_CFG_REG]
                 @ (if conv_invalid d then [USleep t (t + 1)] else [])
                 @ [BusRead ADS1015_CONV_REG]\<rparr>)"
proof -
  have v: "\<not> (chan <s 0 \<or> of_nat ADS1015_CHANNELS \<le>s chan)"
    using chan by (rule valid_chan_conv)
  have m: "cfg_merged d chan = cfg_old d" using eq merged_neq_iff [of d chan] by auto
  show ?thesis
    using v chan len m f t [unfolded cfg_dr_def]
    by (simp add: ads1015_get_adc_result_def prog_defs Let_def regmap_read_eq regmap_write_eq
        usleep_range_def reg_get_def reg_set_def reg_defs drop_tl
        cfg_old_def [symmetric] cfg_merged_def [symmetric, unfolded cfg_desired_def])
qed

lemma events_since_append: "trace d' = trace d @ evs \<Longrightarrow> events_since d d' = evs"
  by (simp add: events_since_def)

lemma next_fault_cases: "next_fault xs = None \<or> (\<exists>e. next_fault xs = Some e)"
  by (cases "next_fault xs") simp_all

text \<open>
  C2 (counterexample): after probe the configuration of channel 0 is the one in the
  chip, yet the acquisition sleeps, because \<^verbatim>\<open>conv_invalid\<close> is set.
\<close>

theorem current_configuration_delays:
  "cfg_old probed_data AND cfg_fields_mask = cfg_desired probed_data 0
   \<and> fst (ads1015_get_adc_result 0 probed_data) = Inr 0x1230
   \<and> events_since probed_data (snd (ads1015_get_adc_result 0 probed_data)) =
       [BusRead ADS1015_CFG_REG, USleep 1375 1376, BusRead ADS1015_CONV_REG]"
proof -
  have c: "unat (0 :: 32 word) < ADS1015_CHANNELS" by (simp add: ADS1015_CHANNELS_def)
  have eq: "cfg_old probed_data AND cfg_fields_mask = cfg_desired probed_data 0"
    by (simp add: probed_cfg mask_values)
  have len: "length (channel_data probed_data) = ADS1015_CHANNELS"
    using wf_probed_data(1) by (simp add: wf_data_def)
  have ok: "xfer_ok 2 (xfer (regmap probed_data))" by (simp add: probed_fields xfer_ok_Nil)
  note t = acquisition_delay_wf [OF wf_probed_data(1) c]
  show ?thesis
    using eq adc_result_current [OF c len t ok eq]
    by (simp add: events_since_def probed_fields probed_delay)
qed

text \<open>
  C2 (amended): for every acquisition by \<^verbatim>\<open>ads1015_get_adc_result\<close> on a valid channel
  of a probed driver: if the mux, gain or rate fields in the chip differ from the ones
  of the channel, an acquisition that returns a value has written the merged word and
  slept for the computed settling delay before it read the conversion register; if they
  are the same and \<^verbatim>\<open>conv_invalid\<close> is clear, the acquisition does not sleep, whatever
  the bus does; if they are the same and \<^verbatim>\<open>conv_invalid\<close> is set, an acquisition that
  returns a value has slept for the computed settling delay.
\<close>

theorem acquisition_delay_cases:
  assumes chan: "unat chan < ADS1015_CHANNELS" and wf: "wf_data d"
  shows "(cfg_old d AND cfg_fields_mask \<noteq> cfg_desired d chan \<longrightarrow>
            fst (ads1015_get_adc_result chan d) = Inr v \<longrightarrow>
            events_since d (snd (ads1015_get_adc_result chan d)) =
              [BusRead ADS1015_CFG_REG, BusWrite ADS1015_CFG_REG (ucast (cfg_merged d chan)),
               USleep (acquisition_delay d chan) (acquisition_delay d chan + 1),
               BusRead ADS1015_CONV_REG])
       \<and> (cfg_old d AND cfg_fields_mask = cfg_desired d chan \<longrightarrow> \<not> conv_invalid d \<longrightarrow>
            filter is_sleep (events_since d (snd (ads1015_get_adc_result chan d))) = [])
       \<and> (cfg_old d AND cfg_fields_mask = cfg_desired d chan \<longrightarrow> conv_invalid d \<longrightarrow>
            fst (ads1015_get_adc_result chan d) = Inr v \<longrightarrow>
            events_since d (snd (ads1015_get_adc_result chan d)) =
              [BusRead ADS1015_CFG_REG,
               USleep (acquisition_delay d chan) (acquisition_delay d chan + 1),
               BusRead ADS1015_CONV_REG])"
proof -
  let ?xs = "xfer (regmap d)"
  have len: "length (channel_data d) = ADS1015_CHANNELS" using wf by (simp add: wf_data_def)
  note t = acquisition_delay_wf [OF wf chan]
  consider (a) e where "next_fault ?xs = Some e"
    | (b) e where "next_fault ?xs = None" "next_fault (tl ?xs) = Some e"
    | (c) e where "next_fault ?xs = None" "next_fault (tl ?xs) = None"
                  "next_fault (tl (tl ?xs)) = Some e"
    | (d) "next_fault ?xs = None" "next_fault (tl ?xs) = None" "next_fault (tl (tl ?xs)) = None"
    using next_fault_cases [of ?xs] next_fault_cases [of "tl ?xs"]
      next_fault_cases [of "tl (tl ?xs)"] by blast
  then show ?thesis
  proof cases
    case a
    show ?thesis
      using adc_result_cfg_read_fails [OF chan a] by (simp add: events_since_def)
  next
    case b
    show ?thesis
      using adc_result_cfg_write_fails [OF chan len b]
        adc_result_conv_read_fails_current [OF chan len t b]
      by (auto simp add: events_since_def)
  next
    case c
    have ok: "xfer_ok 2 ?xs" using c by (simp add: numeral_2_eq_2 xfer_ok_Suc xfer_ok_0)
    show ?thesis
      using adc_result_conv_read_fails_changed [OF chan len t c]
        adc_result_current [OF chan len t ok]
      by (auto simp add: events_since_def)
  next
    case d
    have ok: "xfer_ok 2 ?xs" "xfer_ok 3 ?xs"
      using d by (simp_all add: numeral_2_eq_2 numeral_3_eq_3 xfer_ok_Suc xfer_ok_0)
    show ?thesis
      using adc_result_changed [OF chan len t ok(2)] adc_result_current [OF chan len t ok(1)]
      by (auto simp add: events_since_def)
  qed
qed

theorem acquisition_delay_cases_witness:
  "unat (1 :: 32 word) < ADS1015_CHANNELS \<and> wf_data probed_data
   \<and> cfg_old probed_data AND cfg_fields_mask \<noteq> cfg_desired probed_data 1
   \<and> fst (ads1015_get_adc_result 1 probed_data) = Inr 0x1230
   \<and> events_since probed_data (snd (ads1015_get_adc_result 1 probed_data)) =
       [BusRead 1, BusWrite 1 0x9480, USleep 1375 1376, BusRead 0]
   \<and> unat (0 :: 32 word) < ADS1015_CHANNELS \<and> wf_data settled_data
   \<and> cfg_old settled_data AND cfg_fields_mask = cfg_desired settled_data 0
   \<and> \<not> conv_invalid settled_data
   \<and> filter is_sleep (events_since settled_data (snd (ads1015_get_adc_result 0 settled_data))) = []
   \<and> cfg_old probed_data AND cfg_fields_mask = cfg_desired probed_data 0
   \<and> conv_invalid probed_data
   \<and> fst (ads1015_get_adc_result 0 probed_data) = Inr 0x1230
   \<and> events_since probed_data (snd (ads1015_get_adc_result 0 probed_data)) =
       [BusRead 1, USleep 1375 1376, BusRead 0]"
proof -
  have c: "unat (1 :: 32 word) < ADS1015_CHANNELS" "unat (0 :: 32 word) < ADS1015_CHANNELS"
    by (simp_all add: ADS1015_CHANNELS_def)
  have len: "length (channel_data probed_data) = ADS1015_CHANNELS"
    using wf_probed_data(1) by (simp add: wf_data_def)
  have ok: "xfer_ok 3 (xfer (regmap probed_data))" "xfer_ok 2 (xfer (regmap probed_data))"
    by (simp_all add: probed_fields xfer_ok_Nil)
  have ne: "cfg_old probed_data AND cfg_fields_mask \<noteq> cfg_desired probed_data 1"
    and eq: "cfg_old settled_data AND cfg_fields_mask = cfg_desired settled_data 0"
    and eq': "cfg_old probed_data AND cfg_fields_mask = cfg_desired probed_data 0"
    by (simp_all add: probed_cfg mask_values)
  have r1: "fst (ads1015_get_adc_result 1 probed_data) = Inr 0x1230"
    using adc_result_changed [OF c(1) len acquisition_delay_wf [OF wf_probed_data(1) c(1)] ok(1) ne]
    by (simp add: probed_fields)
  have r0: "fst (ads1015_get_adc_result 0 probed_data) = Inr 0x1230"
    using adc_result_current [OF c(2) len acquisition_delay_wf [OF wf_probed_data(1) c(2)] ok(2) eq']
    by (simp add: probed_fields)
  have m: "cfg_merged probed_data 1 = 0x9480"
    by (simp add: cfg_merged_def probed_cfg mask_values)
  show ?thesis
    using c wf_probed_data ne eq eq' r1 r0
      acquisition_delay_cases [OF c(1) wf_probed_data(1), of "0x1230"]
      acquisition_delay_cases [OF c(2) wf_probed_data(2), of "0x1230"]
      acquisition_delay_cases [OF c(2) wf_probed_data(1), of "0x1230"]
    by (simp add: m probed_fields settled_fields probed_delay reg_defs)
qed

section \<open>Direct reads and the power state\<close>

text \<open>
  C7: For every channel, a direct-mode raw read (\<^verbatim>\<open>ads1015_read_raw\<close> with the raw
  mask) issued while buffered capture is enabled returns the retry error
  (\<^verbatim>\<open>-EAGAIN\<close>) before touching the bus, and never returns a stale or garbage
  sample value: the result is the error, and the state, with its events, its registers
  and its power state, is the one before the call.
\<close>

theorem read_raw_busy:
  assumes "iio_buffer_enabled indio_dev"
  shows "ads1015_read_raw chan IIO_CHAN_INFO_RAW indio_dev = (Inl (Errno EAGAIN), indio_dev)"
  using assms by (simp add: ads1015_read_raw_def)

theorem read_raw_busy_witness:
  "iio_buffer_enabled steady_failing
   \<and> ads1015_read_raw (ADS1015_V_CHAN 2) IIO_CHAN_INFO_RAW steady_failing =
       (Inl (Errno EAGAIN), steady_failing)"
proof -
  have h: "iio_buffer_enabled steady_failing"
    by (simp add: iio_buffer_enabled_def steady_failing_def)
  show ?thesis using h read_raw_busy [OF h, of "ADS1015_V_CHAN 2"] by simp
qed

text \<open>The register map calls leave \<^verbatim>\<open>conv_invalid\<close> as it is.\<close>

lemma update_bits_conv_invalid:
  assumes "reg = 1 \<or> reg = 2 \<or> reg = 3"
  shows "conv_invalid (snd (regmap_update_bits reg msk val d)) = conv_invalid d"
proof -
  have r: "reg \<le> 3" using assms by auto
  show ?thesis
    by (simp add: regmap_update_bits_def prog_defs Let_def regmap_read_eq [OF r]
        regmap_write_eq [OF assms] if_distribR split: option.splits)
qed

lemma set_conv_mode_conv_invalid:
  "conv_invalid (snd (ads1015_set_conv_mode mode d)) = conv_invalid d"
  by (simp add: ads1015_set_conv_mode_def update_bits_conv_invalid reg_defs)

lemma set_conv_mode_power:
  "runtime_suspended (snd (ads1015_set_conv_mode mode d)) = runtime_suspended d"
  by (simp add: ads1015_set_conv_mode_def regmap_update_bits_def prog_defs Let_def
      regmap_read_eq regmap_write_eq if_distribR reg_defs split: option.splits)

lemma set_conv_mode_eq:
  "ads1015_set_conv_mode mode d =
     (case next_fault (xfer (regmap d)) of
        Some e \<Rightarrow> (Inl (Errno e),
          d\<lparr>regmap := (regmap d)\<lparr>xfer := tl (xfer (regmap d))\<rparr>,
            trace := trace d @ [BusRead ADS1015_CFG_REG]\<rparr>)
      | None \<Rightarrow>
          let tmp = (cfg_old d AND NOT ADS1015_CFG_MOD_MASK)
                    OR (push_bit ADS1015_CFG_MOD_SHIFT mode AND ADS1015_CFG_MOD_MASK)
          in if tmp \<noteq> cfg_old d then
               case next_fault (tl (xfer (regmap d))) of
                 Some e \<Rightarrow> (Inl (Errno e),
                   d\<lparr>regmap := (regmap d)\<lparr>xfer := drop 2 (xfer (regmap d))\<rparr>,
                     trace := trace d @ [BusRead ADS1015_CFG_REG,
                                         BusWrite ADS1015_CFG_REG (ucast tmp)]\<rparr>)
               | None \<Rightarrow> (Inr (),
                   d\<lparr>regmap := (regmap d)\<lparr>cfg_reg := ucast tmp,
                                             xfer := drop 2 (xfer (regmap d))\<rparr>,
                     trace := trace d @ [BusRead ADS1015_CFG_REG,
                                         BusWrite ADS1015_CFG_REG (ucast tmp)]\<rparr>)
             else (Inr (),
               d\<lparr>regmap := (regmap d)\<lparr>xfer := tl (xfer (regmap d))\<rparr>,
                 trace := trace d @ [BusRead ADS1015_CFG_REG]\<rparr>))"
  by (simp add: ads1015_set_conv_mode_def regmap_update_bits_def prog_defs Let_def
      regmap_read_eq regmap_write_eq if_distribR reg_defs reg_get_def reg_set_def drop_tl
      cfg_old_def split: option.splits)

lemma suspended_fields:
  "cfg_reg (regmap suspended_data) = 0x8580" "cfg_reg (regmap suspended_failing) = 0x8580"
  "cfg_reg (regmap suspended_continuous) = 0x8480"
  "xfer (regmap suspended_data) = []" "xfer (regmap suspended_failing) = [Some EIO]"
  "xfer (regmap suspended_continuous) = []"
  "runtime_suspended suspended_data" "runtime_suspended suspended_failing"
  "runtime_suspended suspended_continuous"
  "\<not> conv_invalid suspended_data" "\<not> conv_invalid suspended_failing"
  "\<not> conv_invalid suspended_continuous"
  by (simp_all add: suspended_data_def suspended_failing_def suspended_continuous_def
      settled_fields)

section \<open>The unit translator\<close>

lemma set_scale_loop_no_match:
  assumes "\<forall>j. i \<le> j \<longrightarrow> j < length ads1015_fullscale_range \<longrightarrow> ads1015_fullscale_range ! j \<noteq> v"
  shows "ads1015_set_scale_loop chan v i d = (Inl (Errno EINVAL), d)"
  using assms
proof (induction chan v i d rule: ads1015_set_scale_loop.induct)
  case (1 chan fullscale i data)
  show ?case
  proof (cases "i < length ads1015_fullscale_range")
    case True
    with "1.prems" have ne: "ads1015_fullscale_range ! i \<noteq> fullscale" by simp
    have "ads1015_set_scale_loop chan fullscale (i + 1) data = (Inl (Errno EINVAL), data)"
      using "1.IH" [OF True ne] "1.prems" by simp
    then show ?thesis
      using True ne by (subst ads1015_set_scale_loop.simps) simp
  next
    case False
    then show ?thesis by (subst ads1015_set_scale_loop.simps) simp
  qed
qed

lemma set_scale_loop_match:
  assumes "\<exists>j. i \<le> j \<and> j < length ads1015_fullscale_range \<and> ads1015_fullscale_range ! j = v"
    and "address chan < length (channel_data d)"
  shows "\<exists>k. i \<le> k \<and> k < length ads1015_fullscale_range \<and> ads1015_fullscale_range ! k = v
     \<and> (\<forall>j. i \<le> j \<longrightarrow> j < k \<longrightarrow> ads1015_fullscale_range ! j \<noteq> v)
     \<and> ads1015_set_scale_loop chan v i d =
         (Inr (), d\<lparr>channel_data := (channel_data d)[address chan :=
                        (channel_data d ! address chan)\<lparr>pga := of_nat k\<rparr>]\<rparr>)"
  using assms
proof (induction chan v i d rule: ads1015_set_scale_loop.induct)
  case (1 chan fullscale i data)
  from "1.prems"(1) obtain j where j: "i \<le> j" "j < length ads1015_fullscale_range"
    "ads1015_fullscale_range ! j = fullscale" by blast
  then have lt: "i < length ads1015_fullscale_range" by simp
  show ?case
  proof (cases "ads1015_fullscale_range ! i = fullscale")
    case True
    have "ads1015_set_scale_loop chan fullscale i data =
         (Inr (), data\<lparr>channel_data := (channel_data data)[address chan :=
                        (channel_data data ! address chan)\<lparr>pga := of_nat i\<rparr>]\<rparr>)"
      using lt True "1.prems"(2) by (subst ads1015_set_scale_loop.simps) simp
    with lt True show ?thesis by (intro exI [of _ i]) simp
  next
    case False
    with j have "i + 1 \<le> j" by (cases "i = j") auto
    with j have ex: "\<exists>j. i + 1 \<le> j \<and> j < length ads1015_fullscale_range
        \<and> ads1015_fullscale_range ! j = fullscale" by blast
    from "1.IH" [OF lt False ex "1.prems"(2)] obtain k where
      k: "i + 1 \<le> k" "k < length ads1015_fullscale_range" "ads1015_fullscale_range ! k = fullscale"
      "\<forall>j. i + 1 \<le> j \<longrightarrow> j < k \<longrightarrow> ads1015_fullscale_range ! j \<noteq> fullscale"
      "ads1015_set_scale_loop chan fullscale (i + 1) data =
         (Inr (), data\<lparr>channel_data := (channel_data data)[address chan :=
                        (channel_data data ! address chan)\<lparr>pga := of_nat k\<rparr>]\<rparr>)" by blast
    have least: "\<forall>j. i \<le> j \<longrightarrow> j < k \<longrightarrow> ads1015_fullscale_range ! j \<noteq> fullscale"
    proof (intro allI impI)
      fix j assume j: "i \<le> j" "j < k"
      show "ads1015_fullscale_range ! j \<noteq> fullscale"
      proof (cases "j = i")
        case True
        with False show ?thesis by simp
      next
        case neq: False
        with j have "i + 1 \<le> j" by simp
        with k(4) j(2) show ?thesis by blast
      qed
    qed
    have "ads1015_set_scale_loop chan fullscale i data =
         ads1015_set_scale_loop chan fullscale (i + 1) data"
      using lt False by (subst ads1015_set_scale_loop.simps) simp
    with k(1-3,5) least show ?thesis by (intro exI [of _ k]) simp
  qed
qed

lemma set_data_rate_loop_no_match:
  assumes "length ads1015_data_rate \<le> length (data_rate_tab d)"
    and "\<forall>j. i \<le> j \<longrightarrow> j < length ads1015_data_rate \<longrightarrow> data_rate_tab d ! j \<noteq> rate"
  shows "ads1015_set_data_rate_loop chan rate i d = (Inl (Errno EINVAL), d)"
  using assms
proof (induction chan rate i d rule: ads1015_set_data_rate_loop.induct)
  case (1 chan rate i data)
  show ?case
  proof (cases "i < length ads1015_data_rate")
    case True
    with "1.prems" have ne: "data_rate_tab data ! i \<noteq> rate"
      and len: "\<not> length (data_rate_tab data) \<le> i" by simp_all
    have "ads1015_set_data_rate_loop chan rate (i + 1) data = (Inl (Errno EINVAL), data)"
      using "1.IH" [OF True len ne] "1.prems" by simp
    then show ?thesis
      using True ne len by (subst ads1015_set_data_rate_loop.simps) simp
  next
    case False
    then show ?thesis by (subst ads1015_set_data_rate_loop.simps) simp
  qed
qed

lemma set_data_rate_loop_match:
  assumes "length ads1015_data_rate \<le> length (data_rate_tab d)"
    and "\<exists>j. i \<le> j \<and> j < length ads1015_data_rate \<and> data_rate_tab d ! j = rate"
    and "unat chan < length (channel_data d)"
  shows "\<exists>k. i \<le> k \<and> k < length ads1015_data_rate \<and> data_rate_tab d ! k = rate
     \<and> (\<forall>j. i \<le> j \<longrightarrow> j < k \<longrightarrow> data_rate_tab d ! j \<noteq> rate)
     \<and> ads1015_set_data_rate_loop chan rate i d =
         (Inr (), d\<lparr>channel_data := (channel_data d)[unat chan :=
                        (channel_data d ! unat chan)\<lparr>data_rate := of_nat k\<rparr>]\<rparr>)"
  using assms
proof (induction chan rate i d rule: ads1015_set_data_rate_loop.induct)
  case (1 chan rate i data)
  from "1.prems"(2) obtain j where j: "i \<le> j" "j < length ads1015_data_rate"
    "data_rate_tab data ! j = rate" by blast
  then have lt: "i < length ads1015_data_rate" by simp
  with "1.prems"(1) have len: "\<not> length (data_rate_tab data) \<le> i" by simp
  show ?case
  proof (cases "data_rate_tab data ! i = rate")
    case True
    have "ads1015_set_data_rate_loop chan rate i data =
         (Inr (), data\<lparr>channel_data := (channel_data data)[unat chan :=
                        (channel_data data ! unat chan)\<lparr>data_rate := of_nat i\<rparr>]\<rparr>)"
      using lt len True "1.prems"(3) by (subst ads1015_set_data_rate_loop.simps) simp
    with lt True show ?thesis by (intro exI [of _ i]) simp
  next
    case False
    with j have "i + 1 \<le> j" by (cases "i = j") auto
    with j have ex: "\<exists>j. i + 1 \<le> j \<and> j < length ads1015_data_rate
        \<and> data_rate_tab data ! j = rate" by blast
    from "1.IH" [OF lt len False "1.prems"(1) ex "1.prems"(3)] obtain k where
      k: "i + 1 \<le> k" "k < length ads1015_data_rate" "data_rate_tab data ! k = rate"
      "\<forall>j. i + 1 \<le> j \<longrightarrow> j < k \<longrightarrow> data_rate_tab data ! j \<noteq> rate"
      "ads1015_set_data_rate_loop chan rate (i + 1) data =
         (Inr (), data\<lparr>channel_data := (channel_data data)[unat chan :=
                        (channel_data data ! unat chan)\<lparr>data_rate := of_nat k\<rparr>]\<rparr>)" by blast
    have least: "\<forall>j. i \<le> j \<longrightarrow> j < k \<longrightarrow> data_rate_tab data ! j \<noteq> rate"
    proof (intro allI impI)
      fix j assume j: "i \<le> j" "j < k"
      show "data_rate_tab data ! j \<noteq> rate"
      proof (cases "j = i")
        case True
        with False show ?thesis by simp
      next
        case neq: False
        with j have "i + 1 \<le> j" by simp
        with k(4) j(2) show ?thesis by blast
      qed
    qed
    have "ads1015_set_data_rate_loop chan rate i data =
         ads1015_set_data_rate_loop chan rate (i + 1) data"
      using lt len False by (subst ads1015_set_data_rate_loop.simps) simp
    with k(1-3,5) least show ?thesis by (intro exI [of _ k]) simp
  qed
qed

lemma unat_of_nat_index: "k < 8 \<Longrightarrow> unat (of_nat k :: 32 word) = k"
  by (simp add: unat_of_nat)

lemma table_lengths: "length ads1015_fullscale_range = 8" "length ads1015_data_rate = 8"
  by (simp_all add: ads1015_fullscale_range_def ads1015_data_rate_def)

text \<open>
  C5: For every channel, \<^verbatim>\<open>ads1015_set_scale\<close> matches the computed full-scale value
  against the gain table by exact equality only: when the value matches no table entry
  it returns an invalid-argument error (\<^verbatim>\<open>-EINVAL\<close>) and leaves the stored gain index
  (and all the rest of the state) unchanged; there is no nearest-match fallback. When it
  succeeds, the entry of the gain table at the stored index is the computed value.
\<close>

theorem set_scale_exact_match:
  "(fullscale_of chan scale uscale \<notin> set ads1015_fullscale_range \<longrightarrow>
      ads1015_set_scale chan scale uscale d = (Inl (Errno EINVAL), d))
   \<and> (fullscale_of chan scale uscale \<in> set ads1015_fullscale_range \<longrightarrow>
      address chan < length (channel_data d) \<longrightarrow>
      fst (ads1015_set_scale chan scale uscale d) = Inr ()
      \<and> ads1015_fullscale_range !
          unat (pga (channel_data (snd (ads1015_set_scale chan scale uscale d)) ! address chan))
        = fullscale_of chan scale uscale)"
proof (intro conjI impI)
  assume "fullscale_of chan scale uscale \<notin> set ads1015_fullscale_range"
  then have "\<forall>j. 0 \<le> j \<longrightarrow> j < length ads1015_fullscale_range \<longrightarrow>
      ads1015_fullscale_range ! j \<noteq> fullscale_of chan scale uscale"
    by (auto simp add: in_set_conv_nth)
  then show "ads1015_set_scale chan scale uscale d = (Inl (Errno EINVAL), d)"
    unfolding ads1015_set_scale_def by (rule set_scale_loop_no_match)
next
  assume v: "fullscale_of chan scale uscale \<in> set ads1015_fullscale_range"
    and a: "address chan < length (channel_data d)"
  from v have "\<exists>j. 0 \<le> j \<and> j < length ads1015_fullscale_range
      \<and> ads1015_fullscale_range ! j = fullscale_of chan scale uscale"
    by (auto simp add: in_set_conv_nth)
  from set_scale_loop_match [OF this a] obtain k where
    k: "k < length ads1015_fullscale_range"
      "ads1015_fullscale_range ! k = fullscale_of chan scale uscale"
      "ads1015_set_scale chan scale uscale d =
         (Inr (), d\<lparr>channel_data := (channel_data d)[address chan :=
                        (channel_data d ! address chan)\<lparr>pga := of_nat k\<rparr>]\<rparr>)"
    unfolding ads1015_set_scale_def by blast
  show "fst (ads1015_set_scale chan scale uscale d) = Inr ()" using k(3) by simp
  show "ads1015_fullscale_range !
          unat (pga (channel_data (snd (ads1015_set_scale chan scale uscale d)) ! address chan))
        = fullscale_of chan scale uscale"
    using k a by (simp add: table_lengths unat_of_nat_index)
qed

lemma fullscale_examples:
  "fullscale_of (ADS1015_V_CHAN 0) 2 441407 = 5000"
  "fullscale_of (ADS1015_V_CHAN 0) 0 125000 = 256"
  "fullscale_of (ADS1015_V_CHAN 3) 0 125000 = 256"
  "fullscale_of (ADS1115_V_CHAN 0) 0 187500 = 6144"
  by (simp_all add: fullscale_of_def ADS1015_V_CHAN_def ADS1115_V_CHAN_def signed_divide_int_def)

lemma chan_address: "address (ADS1015_V_CHAN n) = n" "address (ADS1115_V_CHAN n) = n"
  "realbits (ADS1015_V_CHAN n) = 12" "realbits (ADS1115_V_CHAN n) = 16"
  by (simp_all add: ADS1015_V_CHAN_def ADS1115_V_CHAN_def)

theorem set_scale_exact_match_witness:
  "fullscale_of (ADS1015_V_CHAN 0) 2 441407 = 5000
   \<and> 5000 \<notin> set ads1015_fullscale_range
   \<and> ads1015_set_scale (ADS1015_V_CHAN 0) 2 441407 probed_data = (Inl (Errno EINVAL), probed_data)
   \<and> fullscale_of (ADS1015_V_CHAN 0) 0 125000 = 256
   \<and> 256 \<in> set ads1015_fullscale_range
   \<and> address (ADS1015_V_CHAN 0) < length (channel_data probed_data)
   \<and> fst (ads1015_set_scale (ADS1015_V_CHAN 0) 0 125000 probed_data) = Inr ()
   \<and> ads1015_fullscale_range !
       unat (pga (channel_data (snd (ads1015_set_scale (ADS1015_V_CHAN 0) 0 125000 probed_data))
                  ! address (ADS1015_V_CHAN 0))) = 256"
proof -
  have t: "(5000 :: 32 word) \<notin> set ads1015_fullscale_range"
    "(256 :: 32 word) \<in> set ads1015_fullscale_range"
    by (simp_all add: ads1015_fullscale_range_def)
  have a: "address (ADS1015_V_CHAN 0) < length (channel_data probed_data)"
    by (simp add: chan_address probed_fields)
  show ?thesis
    using t a set_scale_exact_match [of "ADS1015_V_CHAN 0" 2 441407 probed_data]
      set_scale_exact_match [of "ADS1015_V_CHAN 0" 0 125000 probed_data]
    by (simp only: fullscale_examples) simp
qed

text \<open>
  C10: For every channel, \<^verbatim>\<open>ads1015_set_data_rate\<close> with a rate value not present in
  the chip's rate table returns \<^verbatim>\<open>-EINVAL\<close> and leaves the stored rate index for that
  channel, and all other channels' configuration, unchanged.
\<close>

theorem set_data_rate_unknown:
  assumes "length (data_rate_tab d) = length ads1015_data_rate"
    and "rate \<notin> set (data_rate_tab d)"
  shows "ads1015_set_data_rate chan rate d = (Inl (Errno EINVAL), d)"
proof -
  have "\<forall>j. 0 \<le> j \<longrightarrow> j < length ads1015_data_rate \<longrightarrow> data_rate_tab d ! j \<noteq> rate"
    using assms by (auto simp add: in_set_conv_nth)
  then show ?thesis
    unfolding ads1015_set_data_rate_def using assms(1)
    by (intro set_data_rate_loop_no_match) simp_all
qed

theorem set_data_rate_unknown_witness:
  "length (data_rate_tab probed_data) = length ads1015_data_rate
   \<and> 100 \<notin> set (data_rate_tab probed_data)
   \<and> ads1015_set_data_rate 3 100 probed_data = (Inl (Errno EINVAL), probed_data)"
proof -
  have h: "length (data_rate_tab probed_data) = length ads1015_data_rate"
    "100 \<notin> set (data_rate_tab probed_data)"
    by (simp_all add: probed_fields ads1015_data_rate_def)
  show ?thesis using h set_data_rate_unknown [OF h, of 3] by simp
qed

lemma set_scale_found:
  assumes "fullscale_of chan scale uscale \<in> set ads1015_fullscale_range"
    and "address chan < length (channel_data d)"
  obtains k where "k < 8" "ads1015_fullscale_range ! k = fullscale_of chan scale uscale"
    "\<forall>j<k. ads1015_fullscale_range ! j \<noteq> fullscale_of chan scale uscale"
    "ads1015_set_scale chan scale uscale d =
       (Inr (), d\<lparr>channel_data := (channel_data d)[address chan :=
                    (channel_data d ! address chan)\<lparr>pga := of_nat k\<rparr>]\<rparr>)"
proof -
  from assms(1) have "\<exists>j. 0 \<le> j \<and> j < length ads1015_fullscale_range
      \<and> ads1015_fullscale_range ! j = fullscale_of chan scale uscale"
    by (auto simp add: in_set_conv_nth)
  from set_scale_loop_match [OF this assms(2)] obtain k where
    "k < length ads1015_fullscale_range"
    "ads1015_fullscale_range ! k = fullscale_of chan scale uscale"
    "\<forall>j. 0 \<le> j \<longrightarrow> j < k \<longrightarrow> ads1015_fullscale_range ! j \<noteq> fullscale_of chan scale uscale"
    "ads1015_set_scale_loop chan (fullscale_of chan scale uscale) 0 d =
       (Inr (), d\<lparr>channel_data := (channel_data d)[address chan :=
                    (channel_data d ! address chan)\<lparr>pga := of_nat k\<rparr>]\<rparr>)"
    by blast
  then show thesis
    using that [of k] by (simp add: ads1015_set_scale_def table_lengths)
qed

lemma set_data_rate_found:
  assumes "rate \<in> set (data_rate_tab d)"
    and "length (data_rate_tab d) = 8"
    and "unat chan < length (channel_data d)"
  obtains k where "k < 8" "data_rate_tab d ! k = rate"
    "\<forall>j<k. data_rate_tab d ! j \<noteq> rate"
    "ads1015_set_data_rate chan rate d =
       (Inr (), d\<lparr>channel_data := (channel_data d)[unat chan :=
                    (channel_data d ! unat chan)\<lparr>data_rate := of_nat k\<rparr>]\<rparr>)"
proof -
  have len: "length ads1015_data_rate \<le> length (data_rate_tab d)"
    using assms(2) by (simp add: table_lengths)
  from assms(1,2) have "\<exists>j. 0 \<le> j \<and> j < length ads1015_data_rate \<and> data_rate_tab d ! j = rate"
    by (auto simp add: in_set_conv_nth table_lengths)
  from set_data_rate_loop_match [OF len this assms(3)] obtain k where
    "k < length ads1015_data_rate" "data_rate_tab d ! k = rate"
    "\<forall>j. 0 \<le> j \<longrightarrow> j < k \<longrightarrow> data_rate_tab d ! j \<noteq> rate"
    "ads1015_set_data_rate_loop chan rate 0 d =
       (Inr (), d\<lparr>channel_data := (channel_data d)[unat chan :=
                    (channel_data d ! unat chan)\<lparr>data_rate := of_nat k\<rparr>]\<rparr>)"
    by blast
  then show thesis
    using that [of k] by (simp add: ads1015_set_data_rate_def table_lengths)
qed

lemma least_index_unique:
  fixes k k' :: nat
  assumes "xs ! k = v" "\<forall>j<k. xs ! j \<noteq> v" "xs ! k' = v" "\<forall>j<k'. xs ! j \<noteq> v"
  shows "k = k'"
proof (rule ccontr)
  assume "k \<noteq> k'"
  then consider "k < k'" | "k' < k" by (cases "k < k'") auto
  then show False
  proof cases
    case 1 with assms(1,4) show False by blast
  next
    case 2 with assms(3,2) show False by blast
  qed
qed


text \<open>Setting the same scale, or the same rate, again changes nothing.\<close>

lemma set_scale_round_trip:
  assumes v: "fullscale_of chan scale uscale \<in> set ads1015_fullscale_range"
    and a: "address chan < length (channel_data d)"
  shows "\<exists>d'. ads1015_set_scale chan scale uscale d = (Inr (), d')
     \<and> length (channel_data d') = length (channel_data d)
     \<and> unat (pga (channel_data d' ! address chan)) < length ads1015_fullscale_range
     \<and> ads1015_fullscale_range ! unat (pga (channel_data d' ! address chan))
         = fullscale_of chan scale uscale
     \<and> ads1015_set_scale chan scale uscale d' = (Inr (), d')"
proof -
  from set_scale_found [OF v a] obtain k where k: "k < 8"
    "ads1015_fullscale_range ! k = fullscale_of chan scale uscale"
    "\<forall>j<k. ads1015_fullscale_range ! j \<noteq> fullscale_of chan scale uscale"
    "ads1015_set_scale chan scale uscale d =
       (Inr (), d\<lparr>channel_data := (channel_data d)[address chan :=
                    (channel_data d ! address chan)\<lparr>pga := of_nat k\<rparr>]\<rparr>)"
    by blast
  define d' where "d' = d\<lparr>channel_data := (channel_data d)[address chan :=
                    (channel_data d ! address chan)\<lparr>pga := of_nat k\<rparr>]\<rparr>"
  have a': "address chan < length (channel_data d')" using a by (simp add: d'_def)
  from set_scale_found [OF v a'] obtain k' where k': "k' < 8"
    "ads1015_fullscale_range ! k' = fullscale_of chan scale uscale"
    "\<forall>j<k'. ads1015_fullscale_range ! j \<noteq> fullscale_of chan scale uscale"
    "ads1015_set_scale chan scale uscale d' =
       (Inr (), d'\<lparr>channel_data := (channel_data d')[address chan :=
                    (channel_data d' ! address chan)\<lparr>pga := of_nat k'\<rparr>]\<rparr>)"
    by blast
  have same: "k' = k" using k'(2,3) k(2,3) by (rule least_index_unique)
  have again: "ads1015_set_scale chan scale uscale d' = (Inr (), d')"
    using k'(4) a unfolding same by (simp add: d'_def)
  have idx: "unat (pga (channel_data d' ! address chan)) = k"
    using a k(1) by (simp add: d'_def unat_of_nat_index)
  show ?thesis
    using k(1,2,4) again idx a unfolding d'_def [symmetric]
    by (intro exI [of _ d']) (simp add: table_lengths d'_def)
qed

lemma set_data_rate_round_trip:
  assumes v: "rate \<in> set (data_rate_tab d)"
    and len: "length (data_rate_tab d) = 8"
    and a: "unat chan < length (channel_data d)"
  shows "\<exists>d'. ads1015_set_data_rate chan rate d = (Inr (), d')
     \<and> length (channel_data d') = length (channel_data d)
     \<and> data_rate_tab d' = data_rate_tab d
     \<and> unat (data_rate (channel_data d' ! unat chan)) < length (data_rate_tab d')
     \<and> data_rate_tab d' ! unat (data_rate (channel_data d' ! unat chan)) = rate
     \<and> ads1015_set_data_rate chan rate d' = (Inr (), d')"
proof -
  from set_data_rate_found [OF v len a] obtain k where k: "k < 8"
    "data_rate_tab d ! k = rate" "\<forall>j<k. data_rate_tab d ! j \<noteq> rate"
    "ads1015_set_data_rate chan rate d =
       (Inr (), d\<lparr>channel_data := (channel_data d)[unat chan :=
                    (channel_data d ! unat chan)\<lparr>data_rate := of_nat k\<rparr>]\<rparr>)"
    by blast
  define d' where "d' = d\<lparr>channel_data := (channel_data d)[unat chan :=
                    (channel_data d ! unat chan)\<lparr>data_rate := of_nat k\<rparr>]\<rparr>"
  have t': "data_rate_tab d' = data_rate_tab d" by (simp add: d'_def)
  have v': "rate \<in> set (data_rate_tab d')" and len': "length (data_rate_tab d') = 8"
    and a': "unat chan < length (channel_data d')"
    using v len a by (simp_all add: d'_def)
  from set_data_rate_found [OF v' len' a'] obtain k' where k': "k' < 8"
    "data_rate_tab d' ! k' = rate" "\<forall>j<k'. data_rate_tab d' ! j \<noteq> rate"
    "ads1015_set_data_rate chan rate d' =
       (Inr (), d'\<lparr>channel_data := (channel_data d')[unat chan :=
                    (channel_data d' ! unat chan)\<lparr>data_rate := of_nat k'\<rparr>]\<rparr>)"
    by blast
  have same: "k' = k" using k'(2,3) k(2,3) unfolding t' by (rule least_index_unique)
  have again: "ads1015_set_data_rate chan rate d' = (Inr (), d')"
    using k'(4) a unfolding same by (simp add: d'_def)
  have idx: "unat (data_rate (channel_data d' ! unat chan)) = k"
    using a k(1) by (simp add: d'_def unat_of_nat_index)
  show ?thesis
    using k(1,2,4) again idx a len t' unfolding d'_def [symmetric]
    by (intro exI [of _ d']) (simp add: d'_def)
qed


section \<open>The settling delay from 128 Hz to 3300 Hz\<close>

lemma ceilings_128_3300:
  "nat \<lceil>1000000 / real 128\<rceil> = 7813" "nat \<lceil>1000000 / real 3300\<rceil> = 304"
  "settling_sum 128 3300 = 8117"
  by (simp_all add: settling_sum_def)

lemma rounded_up_128_3300: "settling_delay_rounded_up 128 3300 = 8929"
  by (simp add: settling_delay_rounded_up_def ceilings_128_3300)

lemma conv_time_0_6: "conv_time ads1015_data_rate 0 6 = Some 8928"
  by (simp add: ads1015_data_rate_def conv_time_def DIV_ROUND_UP_def USEC_PER_SEC_def)

lemma ads1015_rate_indices: "ads1015_data_rate ! 0 = 128" "ads1015_data_rate ! 6 = 3300"
  by (simp_all add: ads1015_data_rate_def)

text \<open>
  C8 (counterexample): on the ADS1015, index 0 is 128 Hz and index 6 is 3300 Hz. The
  delay that the code computes is 8928 microseconds; the sum of the two ceilings
  inflated by 10\% and rounded up is 8929, and the sum before the inflation is 8117,
  not 8113.
\<close>

theorem settling_delay_not_rounded_up:
  "ads1015_data_rate ! 0 = 128 \<and> ads1015_data_rate ! 6 = 3300
   \<and> conv_time ads1015_data_rate 0 6 = Some 8928
   \<and> settling_delay_rounded_up 128 3300 = 8929
   \<and> conv_time ads1015_data_rate 0 6 \<noteq> Some (settling_delay_rounded_up 128 3300)
   \<and> settling_sum 128 3300 \<noteq> 8113"
  by (simp add: ads1015_rate_indices conv_time_0_6 rounded_up_128_3300 ceilings_128_3300)

text \<open>
  C8 (amended): the settling delay computed for a transition from an index whose rate
  is 128 Hz to an index whose rate is 3300 Hz is the sum
  \<^verbatim>\<open>ceil(1e6 / 128) + ceil(1e6 / 3300)\<close>, which is 7813 + 304 = 8117 microseconds, plus a
  tenth of that sum rounded down (811): the fixed literal 8928 microseconds.
\<close>

theorem settling_delay_128_3300:
  assumes "i < length ads1015_data_rate" "j < length ads1015_data_rate"
    and "ads1015_data_rate ! i = 128" "ads1015_data_rate ! j = 3300"
  shows "conv_time ads1015_data_rate i j = Some 8928
     \<and> settling_delay 128 3300 = 8928
     \<and> settling_sum 128 3300 = 8117
     \<and> (8928 :: nat) = 8117 + 8117 div 10"
proof -
  have "conv_time ads1015_data_rate i j = Some (settling_delay (unat (ads1015_data_rate ! i))
      (unat (ads1015_data_rate ! j)))"
    using assms by (intro conv_time_settling_delay) simp_all
  then show ?thesis
    using assms(3,4) by (simp add: settling_delay_def ceilings_128_3300)
qed



theorem settling_delay_128_3300_witness:
  "(0 :: nat) < length ads1015_data_rate \<and> (6 :: nat) < length ads1015_data_rate
   \<and> ads1015_data_rate ! 0 = 128 \<and> ads1015_data_rate ! 6 = 3300
   \<and> conv_time ads1015_data_rate 0 6 = Some 8928
   \<and> (7 :: nat) < length ads1015_data_rate \<and> ads1015_data_rate ! 7 = 3300
   \<and> conv_time ads1015_data_rate 0 7 = Some 8928"
proof -
  have h: "(0 :: nat) < length ads1015_data_rate" "(6 :: nat) < length ads1015_data_rate"
    "(7 :: nat) < length ads1015_data_rate"
    "ads1015_data_rate ! 0 = 128" "ads1015_data_rate ! 6 = 3300" "ads1015_data_rate ! 7 = 3300"
    by (simp_all add: ads1015_data_rate_def)
  note c6 = settling_delay_128_3300 [OF h(1) h(2) h(4) h(5), THEN conjunct1]
  note c7 = settling_delay_128_3300 [OF h(1) h(3) h(4) h(6), THEN conjunct1]
  show ?thesis using h c6 c7 by blast
qed

section \<open>The ready pin\<close>

lemma and_not_mask_eq_iff: "(x AND NOT m = x) \<longleftrightarrow> (x AND m = 0)" for x m :: "32 word"
  by (auto simp add: bit_eq_iff bit_and_iff bit_not_iff)

lemma comp_que_cleared: "cfg_comp_que (x AND NOT ADS1015_CFG_COMP_QUE_MASK) = 0"
  by (auto simp add: cfg_comp_que_def bit_eq_iff bit_simps)

lemma comp_que_zero_iff:
  "cfg_comp_que x = 0 \<longleftrightarrow> x AND NOT ADS1015_CFG_COMP_QUE_MASK = x"
  by (simp add: cfg_comp_que_def ADS1015_CFG_COMP_QUE_SHIFT_def and_not_mask_eq_iff)

lemma set_conv_ready_pin_eq:
  "ads1015_set_conv_ready_pin d =
     (case next_fault (xfer (regmap d)) of
        Some e \<Rightarrow> (Inl (Errno e),
          d\<lparr>regmap := (regmap d)\<lparr>xfer := tl (xfer (regmap d))\<rparr>,
            trace := trace d @ [BusWrite ADS1015_LO_THRESH_REG 0]\<rparr>)
      | None \<Rightarrow>
         (case next_fault (tl (xfer (regmap d))) of
            Some e \<Rightarrow> (Inl (Errno e),
              d\<lparr>regmap := (regmap d)\<lparr>lo_thresh_reg := 0, xfer := drop 2 (xfer (regmap d))\<rparr>,
                trace := trace d @ [BusWrite ADS1015_LO_THRESH_REG 0,
                                    BusWrite ADS1015_HI_THRESH_REG 0xFFFF]\<rparr>)
          | None \<Rightarrow>
             (case next_fault (tl (tl (xfer (regmap d)))) of
                Some e \<Rightarrow> (Inl (Errno e),
                  d\<lparr>regmap := (regmap d)\<lparr>lo_thresh_reg := 0, hi_thresh_reg := 0xFFFF,
                                            xfer := drop 3 (xfer (regmap d))\<rparr>,
                    trace := trace d @ [BusWrite ADS1015_LO_THRESH_REG 0,
                                        BusWrite ADS1015_HI_THRESH_REG 0xFFFF,
                                        BusRead ADS1015_CFG_REG]\<rparr>)
              | None \<Rightarrow>
                 if cfg_comp_que (cfg_old d) = 0 then
                   (Inr (),
                    d\<lparr>regmap := (regmap d)\<lparr>lo_thresh_reg := 0, hi_thresh_reg := 0xFFFF,
                                              xfer := drop 3 (xfer (regmap d))\<rparr>,
                      trace := trace d @ [BusWrite ADS1015_LO_THRESH_REG 0,
                                          BusWrite ADS1015_HI_THRESH_REG 0xFFFF,
                                          BusRead ADS1015_CFG_REG]\<rparr>)
                 else
                   (case next_fault (tl (tl (tl (xfer (regmap d))))) of
                      Some e \<Rightarrow> (Inl (Errno e),
                        d\<lparr>regmap := (regmap d)\<lparr>lo_thresh_reg := 0, hi_thresh_reg := 0xFFFF,
                                                  xfer := drop 4 (xfer (regmap d))\<rparr>,
                          trace := trace d @ [BusWrite ADS1015_LO_THRESH_REG 0,
                            BusWrite ADS1015_HI_THRESH_REG 0xFFFF, BusRead ADS1015_CFG_REG,
                            BusWrite ADS1015_CFG_REG
                              (ucast (cfg_old d AND NOT ADS1015_CFG_COMP_QUE_MASK))]\<rparr>)
                    | None \<Rightarrow> (Inr (),
                        d\<lparr>regmap := (regmap d)\<lparr>lo_thresh_reg := 0, hi_thresh_reg := 0xFFFF,
                             cfg_reg := ucast (cfg_old d AND NOT ADS1015_CFG_COMP_QUE_MASK),
                             xfer := drop 4 (xfer (regmap d))\<rparr>,
                          trace := trace d @ [BusWrite ADS1015_LO_THRESH_REG 0,
                            BusWrite ADS1015_HI_THRESH_REG 0xFFFF, BusRead ADS1015_CFG_REG,
                            BusWrite ADS1015_CFG_REG
                              (ucast (cfg_old d AND NOT ADS1015_CFG_COMP_QUE_MASK))]\<rparr>)))))"
  by (simp add: ads1015_set_conv_ready_pin_def regmap_update_bits_def prog_defs Let_def
      regmap_read_eq regmap_write_eq if_distribR reg_defs reg_get_def reg_set_def drop_tl
      comp_que_zero_iff cfg_old_def split: option.splits)


lemma cfg_old_and_round: "ucast (ucast (cfg_old d AND m) :: 16 word) = cfg_old d AND m"
  by (auto simp add: cfg_old_def bit_eq_iff bit_ucast_iff bit_and_iff dest: bit_imp_le_length)

lemma reset_data:
  "cfg_old (zeroed_data chip_reset) = 0x8583" "xfer (regmap (zeroed_data chip_reset)) = []"
  "trace (zeroed_data chip_reset) = []"
  by (simp_all add: cfg_old_def zeroed_data_def chip_reset_def)

lemma comp_que_values:
  "cfg_comp_que 0x8583 = 3" "cfg_comp_que 0x8580 = 0" "(0x8583 :: 32 word) AND NOT 3 = 0x8580"
  by (simp_all add: cfg_comp_que_def mask_values shift_defs)

text \<open>
  C9 (counterexample): on a chip with its reset configuration, where the comparator
  queue field has the disable value 3, the ready-pin setup succeeds and leaves the
  field at 0: it enables the comparator queue, it does not disable it.
\<close>

theorem ready_pin_clears_comparator_queue:
  "cfg_comp_que (cfg_old (zeroed_data chip_reset)) = ADS1015_CFG_COMP_DISABLE
   \<and> fst (ads1015_set_conv_ready_pin (zeroed_data chip_reset)) = Inr ()
   \<and> cfg_old (snd (ads1015_set_conv_ready_pin (zeroed_data chip_reset))) = 0x8580
   \<and> cfg_comp_que (cfg_old (snd (ads1015_set_conv_ready_pin (zeroed_data chip_reset))))
       \<noteq> ADS1015_CFG_COMP_DISABLE"
proof -
  have run: "ads1015_set_conv_ready_pin (zeroed_data chip_reset) =
     (Inr (), (zeroed_data chip_reset)
        \<lparr>regmap := (regmap (zeroed_data chip_reset))
            \<lparr>lo_thresh_reg := 0, hi_thresh_reg := 0xFFFF, cfg_reg := 0x8580, xfer := []\<rparr>,
         trace := [BusWrite ADS1015_LO_THRESH_REG 0, BusWrite ADS1015_HI_THRESH_REG 0xFFFF,
                   BusRead ADS1015_CFG_REG, BusWrite ADS1015_CFG_REG 0x8580]\<rparr>)"
    by (simp add: set_conv_ready_pin_eq reset_data next_fault_def comp_que_values mask_values)
  show ?thesis
    by (simp add: run reset_data comp_que_values ADS1015_CFG_COMP_DISABLE_def)
      (simp add: cfg_old_def comp_que_values)
qed


text \<open>
  C9 (amended): the ready-pin setup (\<^verbatim>\<open>ads1015_set_conv_ready_pin\<close>) writes 0 to the
  low-threshold register and 0xFFFF to the high-threshold register, then reads the
  configuration register and, unless its comparator queue field is 0 already, writes it
  back with that field cleared to 0, the other bits unchanged; so the field ends at 0,
  which is not the disable value 3. The failure of any of these transfers is propagated
  and aborts the remaining steps.
\<close>

theorem set_conv_ready_pin_steps:
  "(xfer_ok 4 (xfer (regmap d)) \<longrightarrow>
      fst (ads1015_set_conv_ready_pin d) = Inr ()
      \<and> lo_thresh_reg (regmap (snd (ads1015_set_conv_ready_pin d))) = 0
      \<and> hi_thresh_reg (regmap (snd (ads1015_set_conv_ready_pin d))) = 0xFFFF
      \<and> cfg_old (snd (ads1015_set_conv_ready_pin d))
           = cfg_old d AND NOT ADS1015_CFG_COMP_QUE_MASK
      \<and> cfg_comp_que (cfg_old (snd (ads1015_set_conv_ready_pin d))) = 0
      \<and> cfg_comp_que (cfg_old (snd (ads1015_set_conv_ready_pin d))) \<noteq> ADS1015_CFG_COMP_DISABLE
      \<and> events_since d (snd (ads1015_set_conv_ready_pin d)) =
           [BusWrite ADS1015_LO_THRESH_REG 0, BusWrite ADS1015_HI_THRESH_REG 0xFFFF,
            BusRead ADS1015_CFG_REG]
           @ (if cfg_comp_que (cfg_old d) = 0 then []
              else [BusWrite ADS1015_CFG_REG
                      (ucast (cfg_old d AND NOT ADS1015_CFG_COMP_QUE_MASK))]))
   \<and> (next_fault (xfer (regmap d)) = Some e \<longrightarrow>
        fst (ads1015_set_conv_ready_pin d) = Inl (Errno e)
        \<and> events_since d (snd (ads1015_set_conv_ready_pin d)) =
             [BusWrite ADS1015_LO_THRESH_REG 0])
   \<and> (next_fault (xfer (regmap d)) = None \<longrightarrow>
        next_fault (tl (xfer (regmap d))) = Some e \<longrightarrow>
        fst (ads1015_set_conv_ready_pin d) = Inl (Errno e)
        \<and> events_since d (snd (ads1015_set_conv_ready_pin d)) =
             [BusWrite ADS1015_LO_THRESH_REG 0, BusWrite ADS1015_HI_THRESH_REG 0xFFFF])
   \<and> (next_fault (xfer (regmap d)) = None \<longrightarrow>
        next_fault (tl (xfer (regmap d))) = None \<longrightarrow>
        next_fault (tl (tl (xfer (regmap d)))) = Some e \<longrightarrow>
        fst (ads1015_set_conv_ready_pin d) = Inl (Errno e)
        \<and> events_since d (snd (ads1015_set_conv_ready_pin d)) =
             [BusWrite ADS1015_LO_THRESH_REG 0, BusWrite ADS1015_HI_THRESH_REG 0xFFFF,
              BusRead ADS1015_CFG_REG])
   \<and> (next_fault (xfer (regmap d)) = None \<longrightarrow>
        next_fault (tl (xfer (regmap d))) = None \<longrightarrow>
        next_fault (tl (tl (xfer (regmap d)))) = None \<longrightarrow>
        cfg_comp_que (cfg_old d) \<noteq> 0 \<longrightarrow>
        next_fault (tl (tl (tl (xfer (regmap d))))) = Some e \<longrightarrow>
        fst (ads1015_set_conv_ready_pin d) = Inl (Errno e)
        \<and> events_since d (snd (ads1015_set_conv_ready_pin d)) =
             [BusWrite ADS1015_LO_THRESH_REG 0, BusWrite ADS1015_HI_THRESH_REG 0xFFFF,
              BusRead ADS1015_CFG_REG,
              BusWrite ADS1015_CFG_REG (ucast (cfg_old d AND NOT ADS1015_CFG_COMP_QUE_MASK))])"
proof (intro conjI impI)
  assume ok: "xfer_ok 4 (xfer (regmap d))"
  have n: "next_fault (xfer (regmap d)) = None" "next_fault (tl (xfer (regmap d))) = None"
    "next_fault (tl (tl (xfer (regmap d)))) = None"
    "next_fault (tl (tl (tl (xfer (regmap d))))) = None"
    using ok by (simp_all add: eval_nat_numeral xfer_ok_Suc)
  have z: "cfg_comp_que (cfg_old d) = 0 \<Longrightarrow> cfg_old d AND NOT ADS1015_CFG_COMP_QUE_MASK = cfg_old d"
    by (simp add: comp_que_zero_iff)
  have dis: "ADS1015_CFG_COMP_DISABLE \<noteq> 0" by (simp add: ADS1015_CFG_COMP_DISABLE_def)
  show "fst (ads1015_set_conv_ready_pin d) = Inr ()"
    by (simp add: set_conv_ready_pin_eq n)
  show "lo_thresh_reg (regmap (snd (ads1015_set_conv_ready_pin d))) = 0"
    by (simp add: set_conv_ready_pin_eq n)
  show "hi_thresh_reg (regmap (snd (ads1015_set_conv_ready_pin d))) = 0xFFFF"
    by (simp add: set_conv_ready_pin_eq n)
  show c: "cfg_old (snd (ads1015_set_conv_ready_pin d))
           = cfg_old d AND NOT ADS1015_CFG_COMP_QUE_MASK"
  proof (cases "cfg_comp_que (cfg_old d) = 0")
    case True
    have "cfg_old (snd (ads1015_set_conv_ready_pin d)) = cfg_old d"
      using True by (simp add: set_conv_ready_pin_eq n) (simp add: cfg_old_def)
    with z [OF True] show ?thesis by simp
  next
    case False
    have "cfg_old (snd (ads1015_set_conv_ready_pin d)) =
        ucast (ucast (cfg_old d AND NOT ADS1015_CFG_COMP_QUE_MASK) :: 16 word)"
      using False by (simp add: set_conv_ready_pin_eq n) (simp add: cfg_old_def)
    then show ?thesis by (simp only: cfg_old_and_round)
  qed
  show q: "cfg_comp_que (cfg_old (snd (ads1015_set_conv_ready_pin d))) = 0"
    unfolding c by (rule comp_que_cleared)
  show "cfg_comp_que (cfg_old (snd (ads1015_set_conv_ready_pin d))) \<noteq> ADS1015_CFG_COMP_DISABLE"
    unfolding q using dis by simp
  show "events_since d (snd (ads1015_set_conv_ready_pin d)) =
           [BusWrite ADS1015_LO_THRESH_REG 0, BusWrite ADS1015_HI_THRESH_REG 0xFFFF,
            BusRead ADS1015_CFG_REG]
           @ (if cfg_comp_que (cfg_old d) = 0 then []
              else [BusWrite ADS1015_CFG_REG
                      (ucast (cfg_old d AND NOT ADS1015_CFG_COMP_QUE_MASK))])"
    by (simp add: set_conv_ready_pin_eq n events_since_def)
next
  assume "next_fault (xfer (regmap d)) = Some e"
  then show "fst (ads1015_set_conv_ready_pin d) = Inl (Errno e)"
    "events_since d (snd (ads1015_set_conv_ready_pin d)) = [BusWrite ADS1015_LO_THRESH_REG 0]"
    by (simp_all add: set_conv_ready_pin_eq events_since_def)
next
  assume "next_fault (xfer (regmap d)) = None" "next_fault (tl (xfer (regmap d))) = Some e"
  then show "fst (ads1015_set_conv_ready_pin d) = Inl (Errno e)"
    "events_since d (snd (ads1015_set_conv_ready_pin d)) =
       [BusWrite ADS1015_LO_THRESH_REG 0, BusWrite ADS1015_HI_THRESH_REG 0xFFFF]"
    by (simp_all add: set_conv_ready_pin_eq events_since_def)
next
  assume "next_fault (xfer (regmap d)) = None" "next_fault (tl (xfer (regmap d))) = None"
    "next_fault (tl (tl (xfer (regmap d)))) = Some e"
  then show "fst (ads1015_set_conv_ready_pin d) = Inl (Errno e)"
    "events_since d (snd (ads1015_set_conv_ready_pin d)) =
       [BusWrite ADS1015_LO_THRESH_REG 0, BusWrite ADS1015_HI_THRESH_REG 0xFFFF,
        BusRead ADS1015_CFG_REG]"
    by (simp_all add: set_conv_ready_pin_eq events_since_def)
next
  assume "next_fault (xfer (regmap d)) = None" "next_fault (tl (xfer (regmap d))) = None"
    "next_fault (tl (tl (xfer (regmap d)))) = None" "cfg_comp_que (cfg_old d) \<noteq> 0"
    "next_fault (tl (tl (tl (xfer (regmap d))))) = Some e"
  then show "fst (ads1015_set_conv_ready_pin d) = Inl (Errno e)"
    "events_since d (snd (ads1015_set_conv_ready_pin d)) =
       [BusWrite ADS1015_LO_THRESH_REG 0, BusWrite ADS1015_HI_THRESH_REG 0xFFFF,
        BusRead ADS1015_CFG_REG,
        BusWrite ADS1015_CFG_REG (ucast (cfg_old d AND NOT ADS1015_CFG_COMP_QUE_MASK))]"
    by (simp_all add: set_conv_ready_pin_eq events_since_def)
qed


lemma faulty_reset_fields:
  "xfer (regmap (faulty_reset xs)) = xs" "cfg_old (faulty_reset xs) = 0x8583"
  by (simp_all add: faulty_reset_def zeroed_data_def chip_reset_def cfg_old_def)

theorem set_conv_ready_pin_steps_witness:
  "xfer_ok 4 (xfer (regmap (faulty_reset [])))
   \<and> fst (ads1015_set_conv_ready_pin (faulty_reset [])) = Inr ()
   \<and> lo_thresh_reg (regmap (snd (ads1015_set_conv_ready_pin (faulty_reset [])))) = 0
   \<and> hi_thresh_reg (regmap (snd (ads1015_set_conv_ready_pin (faulty_reset [])))) = 0xFFFF
   \<and> cfg_old (snd (ads1015_set_conv_ready_pin (faulty_reset []))) = 0x8580
   \<and> events_since (faulty_reset []) (snd (ads1015_set_conv_ready_pin (faulty_reset []))) =
       [BusWrite 2 0, BusWrite 3 0xFFFF, BusRead 1, BusWrite 1 0x8580]
   \<and> next_fault (xfer (regmap (faulty_reset [Some EIO]))) = Some EIO
   \<and> fst (ads1015_set_conv_ready_pin (faulty_reset [Some EIO])) = Inl (Errno EIO)
   \<and> events_since (faulty_reset [Some EIO])
        (snd (ads1015_set_conv_ready_pin (faulty_reset [Some EIO]))) = [BusWrite 2 0]
   \<and> next_fault (tl (xfer (regmap (faulty_reset [None, Some EIO])))) = Some EIO
   \<and> fst (ads1015_set_conv_ready_pin (faulty_reset [None, Some EIO])) = Inl (Errno EIO)
   \<and> events_since (faulty_reset [None, Some EIO])
        (snd (ads1015_set_conv_ready_pin (faulty_reset [None, Some EIO]))) =
       [BusWrite 2 0, BusWrite 3 0xFFFF]
   \<and> next_fault (tl (tl (xfer (regmap (faulty_reset [None, None, Some EIO]))))) = Some EIO
   \<and> fst (ads1015_set_conv_ready_pin (faulty_reset [None, None, Some EIO])) = Inl (Errno EIO)
   \<and> events_since (faulty_reset [None, None, Some EIO])
        (snd (ads1015_set_conv_ready_pin (faulty_reset [None, None, Some EIO]))) =
       [BusWrite 2 0, BusWrite 3 0xFFFF, BusRead 1]
   \<and> cfg_comp_que (cfg_old (faulty_reset [None, None, None, Some EIO])) \<noteq> 0
   \<and> next_fault (tl (tl (tl (xfer (regmap (faulty_reset [None, None, None, Some EIO]))))))
       = Some EIO
   \<and> fst (ads1015_set_conv_ready_pin (faulty_reset [None, None, None, Some EIO]))
       = Inl (Errno EIO)
   \<and> events_since (faulty_reset [None, None, None, Some EIO])
        (snd (ads1015_set_conv_ready_pin (faulty_reset [None, None, None, Some EIO]))) =
       [BusWrite 2 0, BusWrite 3 0xFFFF, BusRead 1, BusWrite 1 0x8580]"
proof -
  have f: "xfer_ok 4 (xfer (regmap (faulty_reset [])))"
    "next_fault [Some EIO] = Some EIO" "next_fault [None, Some EIO] = None"
    "next_fault [None, None, Some EIO] = None" "next_fault [None, None, None, Some EIO] = None"
    by (simp_all add: faulty_reset_fields xfer_ok_Nil next_fault_def)
  have v: "ucast (0x8583 AND NOT ADS1015_CFG_COMP_QUE_MASK :: 32 word) = (0x8580 :: 16 word)"
    "(0x8583 :: 32 word) AND NOT ADS1015_CFG_COMP_QUE_MASK = 0x8580"
    by (simp_all add: mask_values)
  note t0 = set_conv_ready_pin_steps [of "faulty_reset []" EIO, THEN conjunct1, rule_format, OF f(1)]
  note t1 = set_conv_ready_pin_steps [of "faulty_reset [Some EIO]" EIO,
      THEN conjunct2, THEN conjunct1]
  note t2 = set_conv_ready_pin_steps [of "faulty_reset [None, Some EIO]" EIO,
      THEN conjunct2, THEN conjunct2, THEN conjunct1]
  note t3 = set_conv_ready_pin_steps [of "faulty_reset [None, None, Some EIO]" EIO,
      THEN conjunct2, THEN conjunct2, THEN conjunct2, THEN conjunct1]
  note t4 = set_conv_ready_pin_steps [of "faulty_reset [None, None, None, Some EIO]" EIO,
      THEN conjunct2, THEN conjunct2, THEN conjunct2, THEN conjunct2]
  show ?thesis
    using f(1) t0 t1 t2 t3 t4
    by (simp add: faulty_reset_fields f(2-) v comp_que_values reg_defs)
qed

section \<open>Buffered capture\<close>









































section \<open>Runtime resume\<close>

lemma set_conv_mode_continuous_eq:
  "ads1015_set_conv_mode ADS1015_CONTINUOUS d =
     (case next_fault (xfer (regmap d)) of
        Some e \<Rightarrow> (Inl (Errno e),
          d\<lparr>regmap := (regmap d)\<lparr>xfer := tl (xfer (regmap d))\<rparr>,
            trace := trace d @ [BusRead ADS1015_CFG_REG]\<rparr>)
      | None \<Rightarrow>
          if cfg_old d AND ADS1015_CFG_MOD_MASK \<noteq> 0 then
               case next_fault (tl (xfer (regmap d))) of
                 Some e \<Rightarrow> (Inl (Errno e),
                   d\<lparr>regmap := (regmap d)\<lparr>xfer := drop 2 (xfer (regmap d))\<rparr>,
                     trace := trace d @ [BusRead ADS1015_CFG_REG,
                       BusWrite ADS1015_CFG_REG (ucast (cfg_old d AND NOT ADS1015_CFG_MOD_MASK))]\<rparr>)
               | None \<Rightarrow> (Inr (),
                   d\<lparr>regmap := (regmap d)
                        \<lparr>cfg_reg := ucast (cfg_old d AND NOT ADS1015_CFG_MOD_MASK),
                         xfer := drop 2 (xfer (regmap d))\<rparr>,
                     trace := trace d @ [BusRead ADS1015_CFG_REG,
                       BusWrite ADS1015_CFG_REG (ucast (cfg_old d AND NOT ADS1015_CFG_MOD_MASK))]\<rparr>)
          else (Inr (),
               d\<lparr>regmap := (regmap d)\<lparr>xfer := tl (xfer (regmap d))\<rparr>,
                 trace := trace d @ [BusRead ADS1015_CFG_REG]\<rparr>))"
proof -
  have t: "(cfg_old d AND NOT ADS1015_CFG_MOD_MASK)
        OR (push_bit ADS1015_CFG_MOD_SHIFT ADS1015_CONTINUOUS AND ADS1015_CFG_MOD_MASK)
      = cfg_old d AND NOT ADS1015_CFG_MOD_MASK"
    by (simp add: ADS1015_CONTINUOUS_def)
  have n: "(cfg_old d AND NOT ADS1015_CFG_MOD_MASK \<noteq> cfg_old d)
      \<longleftrightarrow> (cfg_old d AND ADS1015_CFG_MOD_MASK \<noteq> 0)"
    by (simp add: and_not_mask_eq_iff)
  show ?thesis
    unfolding set_conv_mode_eq [of ADS1015_CONTINUOUS d] t Let_def n ..
qed

text \<open>
  C4: Every Suspended-to-Active power transition (runtime resume) that succeeds sets
  \<^verbatim>\<open>conv_invalid\<close> to true, independent of whether the configuration word changed; if
  switching the device back to continuous mode fails, the error is propagated and
  \<^verbatim>\<open>conv_invalid\<close> is not set. Switching back fails exactly when a transfer of it
  fails on the bus: the read of the configuration register, or its write when the mode
  bit has to change. The same holds of \<^verbatim>\<open>pm_runtime_get_sync\<close> on a suspended device,
  which then stays suspended.
\<close>

theorem runtime_resume_invalidates:
  "(fst (ads1015_set_conv_mode ADS1015_CONTINUOUS d) = Inr u \<longrightarrow>
        ads1015_runtime_resume d
          = (Inr u, (snd (ads1015_set_conv_mode ADS1015_CONTINUOUS d))\<lparr>conv_invalid := True\<rparr>))
   \<and> (fst (ads1015_set_conv_mode ADS1015_CONTINUOUS d) = Inl e \<longrightarrow>
        ads1015_runtime_resume d = (Inl e, snd (ads1015_set_conv_mode ADS1015_CONTINUOUS d))
        \<and> conv_invalid (snd (ads1015_runtime_resume d)) = conv_invalid d)
   \<and> (fst (ads1015_runtime_resume d) = Inr u \<longrightarrow> conv_invalid (snd (ads1015_runtime_resume d)))
   \<and> (fst (ads1015_runtime_resume d) = Inl e \<longrightarrow>
        fst (ads1015_set_conv_mode ADS1015_CONTINUOUS d) = Inl e
        \<and> conv_invalid (snd (ads1015_runtime_resume d)) = conv_invalid d)
   \<and> (next_fault (xfer (regmap d)) = Some f \<longrightarrow>
        fst (ads1015_runtime_resume d) = Inl (Errno f)
        \<and> conv_invalid (snd (ads1015_runtime_resume d)) = conv_invalid d)
   \<and> (next_fault (xfer (regmap d)) = None \<longrightarrow> cfg_old d AND ADS1015_CFG_MOD_MASK \<noteq> 0 \<longrightarrow>
        next_fault (tl (xfer (regmap d))) = Some f \<longrightarrow>
        fst (ads1015_runtime_resume d) = Inl (Errno f)
        \<and> conv_invalid (snd (ads1015_runtime_resume d)) = conv_invalid d)
   \<and> (next_fault (xfer (regmap d)) = None \<longrightarrow> cfg_old d AND ADS1015_CFG_MOD_MASK \<noteq> 0 \<longrightarrow>
        next_fault (tl (xfer (regmap d))) = None \<longrightarrow>
        fst (ads1015_runtime_resume d) = Inr ()
        \<and> conv_invalid (snd (ads1015_runtime_resume d))
        \<and> cfg_old (snd (ads1015_runtime_resume d)) \<noteq> cfg_old d)
   \<and> (next_fault (xfer (regmap d)) = None \<longrightarrow> cfg_old d AND ADS1015_CFG_MOD_MASK = 0 \<longrightarrow>
        fst (ads1015_runtime_resume d) = Inr ()
        \<and> conv_invalid (snd (ads1015_runtime_resume d))
        \<and> cfg_old (snd (ads1015_runtime_resume d)) = cfg_old d)
   \<and> (runtime_suspended d \<longrightarrow> fst (pm_runtime_get_sync d) = Inr r \<longrightarrow>
        conv_invalid (snd (pm_runtime_get_sync d))
        \<and> \<not> runtime_suspended (snd (pm_runtime_get_sync d)))
   \<and> (runtime_suspended d \<longrightarrow> fst (pm_runtime_get_sync d) = Inl e \<longrightarrow>
        conv_invalid (snd (pm_runtime_get_sync d)) = conv_invalid d
        \<and> runtime_suspended (snd (pm_runtime_get_sync d)))
   \<and> (runtime_suspended d \<longrightarrow> next_fault (xfer (regmap d)) = Some f \<longrightarrow>
        fst (pm_runtime_get_sync d) = Inl (Errno f)
        \<and> conv_invalid (snd (pm_runtime_get_sync d)) = conv_invalid d
        \<and> runtime_suspended (snd (pm_runtime_get_sync d)))"
proof -
  obtain res d' where run: "ads1015_set_conv_mode ADS1015_CONTINUOUS d = (res, d')"
    by (cases "ads1015_set_conv_mode ADS1015_CONTINUOUS d")
  have ci: "conv_invalid d' = conv_invalid d"
    using set_conv_mode_conv_invalid [of ADS1015_CONTINUOUS d] run by simp
  have fwd: "(fst (ads1015_set_conv_mode ADS1015_CONTINUOUS d) = Inr u \<longrightarrow>
        ads1015_runtime_resume d
          = (Inr u, (snd (ads1015_set_conv_mode ADS1015_CONTINUOUS d))\<lparr>conv_invalid := True\<rparr>))
   \<and> (fst (ads1015_set_conv_mode ADS1015_CONTINUOUS d) = Inl e \<longrightarrow>
        ads1015_runtime_resume d = (Inl e, snd (ads1015_set_conv_mode ADS1015_CONTINUOUS d))
        \<and> conv_invalid (snd (ads1015_runtime_resume d)) = conv_invalid d)"
    using run ci by (cases res) (simp_all add: ads1015_runtime_resume_def)
  have resume: "(fst (ads1015_runtime_resume d) = Inr u \<longrightarrow> conv_invalid (snd (ads1015_runtime_resume d)))
   \<and> (fst (ads1015_runtime_resume d) = Inl e \<longrightarrow>
        fst (ads1015_set_conv_mode ADS1015_CONTINUOUS d) = Inl e
        \<and> conv_invalid (snd (ads1015_runtime_resume d)) = conv_invalid d)"
    using run ci by (cases res) (simp_all add: ads1015_runtime_resume_def)
  have bus1: "next_fault (xfer (regmap d)) = Some f \<longrightarrow>
        fst (ads1015_runtime_resume d) = Inl (Errno f)
        \<and> conv_invalid (snd (ads1015_runtime_resume d)) = conv_invalid d"
    by (simp add: ads1015_runtime_resume_def set_conv_mode_continuous_eq)
  have bus2: "next_fault (xfer (regmap d)) = None \<longrightarrow> cfg_old d AND ADS1015_CFG_MOD_MASK \<noteq> 0 \<longrightarrow>
        next_fault (tl (xfer (regmap d))) = Some f \<longrightarrow>
        fst (ads1015_runtime_resume d) = Inl (Errno f)
        \<and> conv_invalid (snd (ads1015_runtime_resume d)) = conv_invalid d"
    by (simp add: ads1015_runtime_resume_def set_conv_mode_continuous_eq)
  have m: "ADS1015_CFG_MOD_MASK = push_bit 8 (1 :: 32 word)" by (simp add: mask_values)
  have ne: "cfg_old d AND ADS1015_CFG_MOD_MASK \<noteq> 0 \<Longrightarrow>
      ucast (ucast (cfg_old d AND NOT ADS1015_CFG_MOD_MASK) :: 16 word) \<noteq> cfg_old d"
  proof
    assume a: "cfg_old d AND ADS1015_CFG_MOD_MASK \<noteq> 0"
      and b: "ucast (ucast (cfg_old d AND NOT ADS1015_CFG_MOD_MASK) :: 16 word) = cfg_old d"
    have "bit (cfg_old d) 8 = bit (ucast (ucast (cfg_old d AND NOT ADS1015_CFG_MOD_MASK) :: 16 word) :: 32 word) 8"
      using b by simp
    then have "\<not> bit (cfg_old d) 8"
      unfolding m by (simp add: bit_simps)
    then have "cfg_old d AND ADS1015_CFG_MOD_MASK = 0"
      unfolding m by (simp only: bit_iff_and_push_bit_not_eq_0 not_not)
    with a show False by simp
  qed
  have ok1: "next_fault (xfer (regmap d)) = None \<longrightarrow> cfg_old d AND ADS1015_CFG_MOD_MASK \<noteq> 0 \<longrightarrow>
        next_fault (tl (xfer (regmap d))) = None \<longrightarrow>
        fst (ads1015_runtime_resume d) = Inr ()
        \<and> conv_invalid (snd (ads1015_runtime_resume d))
        \<and> cfg_old (snd (ads1015_runtime_resume d)) \<noteq> cfg_old d"
    using ne by (simp add: ads1015_runtime_resume_def set_conv_mode_continuous_eq cfg_old_def)
  have ok2: "next_fault (xfer (regmap d)) = None \<longrightarrow> cfg_old d AND ADS1015_CFG_MOD_MASK = 0 \<longrightarrow>
        fst (ads1015_runtime_resume d) = Inr ()
        \<and> conv_invalid (snd (ads1015_runtime_resume d))
        \<and> cfg_old (snd (ads1015_runtime_resume d)) = cfg_old d"
    by (simp add: ads1015_runtime_resume_def set_conv_mode_continuous_eq cfg_old_def)
  let ?d1 = "d\<lparr>usage_count := usage_count d + 1\<rparr>"
  obtain res1 d1' where run1: "ads1015_set_conv_mode ADS1015_CONTINUOUS ?d1 = (res1, d1')"
    by (cases "ads1015_set_conv_mode ADS1015_CONTINUOUS ?d1")
  have ci1: "conv_invalid d1' = conv_invalid d" "runtime_suspended d1' = runtime_suspended d"
    using set_conv_mode_conv_invalid [of ADS1015_CONTINUOUS ?d1]
      set_conv_mode_power [of ADS1015_CONTINUOUS ?d1] run1 by simp_all
  have get: "(runtime_suspended d \<longrightarrow> fst (pm_runtime_get_sync d) = Inr r \<longrightarrow>
        conv_invalid (snd (pm_runtime_get_sync d))
        \<and> \<not> runtime_suspended (snd (pm_runtime_get_sync d)))
   \<and> (runtime_suspended d \<longrightarrow> fst (pm_runtime_get_sync d) = Inl e \<longrightarrow>
        conv_invalid (snd (pm_runtime_get_sync d)) = conv_invalid d
        \<and> runtime_suspended (snd (pm_runtime_get_sync d)))"
    using run1 ci1
    by (cases res1) (simp_all add: pm_runtime_get_sync_def ads1015_runtime_resume_def Let_def)
  have get1: "runtime_suspended d \<longrightarrow> next_fault (xfer (regmap d)) = Some f \<longrightarrow>
        fst (pm_runtime_get_sync d) = Inl (Errno f)
        \<and> conv_invalid (snd (pm_runtime_get_sync d)) = conv_invalid d
        \<and> runtime_suspended (snd (pm_runtime_get_sync d))"
    by (simp add: pm_runtime_get_sync_def ads1015_runtime_resume_def Let_def
        set_conv_mode_continuous_eq)
  show ?thesis using fwd resume bus1 bus2 ok1 ok2 get get1 by blast
qed


lemma suspended_write_failing_fields:
  "cfg_reg (regmap suspended_write_failing) = 0x8580"
  "xfer (regmap suspended_write_failing) = [None, Some EREMOTEIO]"
  "runtime_suspended suspended_write_failing" "\<not> conv_invalid suspended_write_failing"
  by (simp_all add: suspended_write_failing_def suspended_fields)

theorem runtime_resume_invalidates_witness:
  "fst (ads1015_set_conv_mode ADS1015_CONTINUOUS suspended_data) = Inr ()
   \<and> ads1015_runtime_resume suspended_data
       = (Inr (), (snd (ads1015_set_conv_mode ADS1015_CONTINUOUS suspended_data))
                    \<lparr>conv_invalid := True\<rparr>)
   \<and> next_fault (xfer (regmap suspended_data)) = None
   \<and> cfg_old suspended_data AND ADS1015_CFG_MOD_MASK \<noteq> 0
   \<and> next_fault (tl (xfer (regmap suspended_data))) = None
   \<and> fst (ads1015_runtime_resume suspended_data) = Inr ()
   \<and> conv_invalid (snd (ads1015_runtime_resume suspended_data))
   \<and> cfg_old (snd (ads1015_runtime_resume suspended_data)) \<noteq> cfg_old suspended_data
   \<and> next_fault (xfer (regmap suspended_continuous)) = None
   \<and> cfg_old suspended_continuous AND ADS1015_CFG_MOD_MASK = 0
   \<and> fst (ads1015_runtime_resume suspended_continuous) = Inr ()
   \<and> conv_invalid (snd (ads1015_runtime_resume suspended_continuous))
   \<and> cfg_old (snd (ads1015_runtime_resume suspended_continuous)) = cfg_old suspended_continuous
   \<and> next_fault (xfer (regmap suspended_failing)) = Some EIO
   \<and> fst (ads1015_set_conv_mode ADS1015_CONTINUOUS suspended_failing) = Inl (Errno EIO)
   \<and> ads1015_runtime_resume suspended_failing
       = (Inl (Errno EIO), snd (ads1015_set_conv_mode ADS1015_CONTINUOUS suspended_failing))
   \<and> fst (ads1015_runtime_resume suspended_failing) = Inl (Errno EIO)
   \<and> \<not> conv_invalid (snd (ads1015_runtime_resume suspended_failing))
   \<and> next_fault (xfer (regmap suspended_write_failing)) = None
   \<and> cfg_old suspended_write_failing AND ADS1015_CFG_MOD_MASK \<noteq> 0
   \<and> next_fault (tl (xfer (regmap suspended_write_failing))) = Some EREMOTEIO
   \<and> fst (ads1015_runtime_resume suspended_write_failing) = Inl (Errno EREMOTEIO)
   \<and> \<not> conv_invalid (snd (ads1015_runtime_resume suspended_write_failing))
   \<and> runtime_suspended suspended_data
   \<and> fst (pm_runtime_get_sync suspended_data) = Inr 0
   \<and> conv_invalid (snd (pm_runtime_get_sync suspended_data))
   \<and> \<not> runtime_suspended (snd (pm_runtime_get_sync suspended_data))
   \<and> runtime_suspended suspended_failing
   \<and> fst (pm_runtime_get_sync suspended_failing) = Inl (Errno EIO)
   \<and> \<not> conv_invalid (snd (pm_runtime_get_sync suspended_failing))
   \<and> runtime_suspended (snd (pm_runtime_get_sync suspended_failing))"
proof -
  note sf = suspended_fields suspended_write_failing_fields
  have o: "cfg_old suspended_data = 0x8580" "cfg_old suspended_continuous = 0x8480"
    "cfg_old suspended_write_failing = 0x8580" "cfg_old suspended_failing = 0x8580"
    by (simp_all add: cfg_old_def sf)
  have b: "next_fault (xfer (regmap suspended_data)) = None"
    "next_fault (tl (xfer (regmap suspended_data))) = None"
    "next_fault (xfer (regmap suspended_continuous)) = None"
    "next_fault (xfer (regmap suspended_failing)) = Some EIO"
    "next_fault (xfer (regmap suspended_write_failing)) = None"
    "next_fault (tl (xfer (regmap suspended_write_failing))) = Some EREMOTEIO"
    by (simp_all add: sf next_fault_def)
  have m: "cfg_old suspended_data AND ADS1015_CFG_MOD_MASK \<noteq> 0"
    "cfg_old suspended_continuous AND ADS1015_CFG_MOD_MASK = 0"
    "cfg_old suspended_write_failing AND ADS1015_CFG_MOD_MASK \<noteq> 0"
    by (simp_all add: o mask_values)
  have s: "fst (ads1015_set_conv_mode ADS1015_CONTINUOUS suspended_data) = Inr ()"
    "fst (ads1015_set_conv_mode ADS1015_CONTINUOUS suspended_failing) = Inl (Errno EIO)"
    by (simp_all add: set_conv_mode_continuous_eq b m)
  note t1 = runtime_resume_invalidates [of suspended_data]
  note t2 = runtime_resume_invalidates [of suspended_continuous]
  note t3 = runtime_resume_invalidates [of suspended_failing _ "Errno EIO" EIO]
  note t4 = runtime_resume_invalidates [of suspended_write_failing _ _ EREMOTEIO]
  note a0 = t1 [THEN conjunct1, rule_format, OF s(1)]
  note a1 = t1 [THEN conjunct2, THEN conjunct2, THEN conjunct2, THEN conjunct2, THEN conjunct2,
      THEN conjunct2, THEN conjunct1, rule_format, OF b(1) m(1) b(2)]
  note a2 = t2 [THEN conjunct2, THEN conjunct2, THEN conjunct2, THEN conjunct2, THEN conjunct2,
      THEN conjunct2, THEN conjunct2, THEN conjunct1, rule_format, OF b(3) m(2)]
  note a3 = t3 [THEN conjunct2, THEN conjunct1, rule_format, OF s(2)]
  note a3' = t3 [THEN conjunct2, THEN conjunct2, THEN conjunct2, THEN conjunct2, THEN conjunct1,
      rule_format, OF b(4)]
  note a4 = t4 [THEN conjunct2, THEN conjunct2, THEN conjunct2, THEN conjunct2, THEN conjunct2,
      THEN conjunct1, rule_format, OF b(5) m(3) b(6)]
  have g: "fst (pm_runtime_get_sync suspended_data) = Inr 0"
    using sf
    by (simp add: pm_runtime_get_sync_def Let_def ads1015_runtime_resume_def
        set_conv_mode_eq cfg_old_def next_fault_def mask_values shift_defs ADS1015_CONTINUOUS_def)
  note t1' = runtime_resume_invalidates [of suspended_data _ _ _ 0]
  note a5 = t1' [THEN conjunct2, THEN conjunct2, THEN conjunct2, THEN conjunct2, THEN conjunct2,
      THEN conjunct2, THEN conjunct2, THEN conjunct2, THEN conjunct1, rule_format, OF sf(7) g]
  note a6 = t3 [THEN conjunct2, THEN conjunct2, THEN conjunct2, THEN conjunct2, THEN conjunct2,
      THEN conjunct2, THEN conjunct2, THEN conjunct2, THEN conjunct2, THEN conjunct2,
      rule_format, OF sf(8) b(4)]
  show ?thesis
    using s b m a0 a1 a2 a3 a3' a4 a5 a6 g sf(7,8,10,11) suspended_write_failing_fields(4)
    by simp
qed

section \<open>Round trips of scale and rate\<close>

lemma scast_32_64: "(scast (w :: 32 word) :: 64 word) = word_of_int (sint w)"
  by (rule scast_eq)

lemma fullscale_of_floor:
  assumes "0 \<le> scale_micro val val2"
    and "scale_micro val val2 * 2 ^ (realbits chan - 1) < 2 ^ 63"
  shows "fullscale_of chan val val2
     = word_of_int (scale_micro val val2 * 2 ^ (realbits chan - 1) div 1000000)"
proof -
  let ?m = "scale_micro val val2" and ?s = "realbits chan - 1"
  have x: "(scast val * 1000000 + scast val2 :: 64 word) = word_of_int ?m"
    unfolding scast_32_64 scale_micro_def by (simp only: word_of_int_hom_syms of_int_numeral)
  have p: "push_bit ?s (word_of_int ?m :: 64 word) = word_of_int (?m * 2 ^ ?s)"
    by (simp add: push_bit_eq_mult)
  have nn: "0 \<le> ?m * 2 ^ ?s" using assms(1) by simp
  define k where "k = ?m * 2 ^ ?s"
  have k: "0 \<le> k" "k < 2 ^ 63" using nn assms(2) by (simp_all add: k_def)
  have "sint (word_of_int k :: 64 word) = signed_take_bit (LENGTH(64) - 1) k"
    by (rule sint_sbintrunc')
  also have "\<dots> = k"
    using k by (intro signed_take_bit_int_eq_self) simp_all
  finally have s: "sint (word_of_int k :: 64 word) = k" .
  have d: "k sdiv 1000000 = k div 1000000"
    using k(1) by (simp add: signed_divide_int_def sgn_if)
  have "fullscale_of chan val val2 = word_of_int (sint (word_of_int k :: 64 word) sdiv 1000000)"
    unfolding fullscale_of_def x p k_def ..
  also have "\<dots> = word_of_int (k div 1000000)"
    by (simp only: s d)
  finally show ?thesis
    unfolding k_def .
qed


lemma fullscale_table_values:
  assumes "fs \<in> set ads1015_fullscale_range"
  shows "0 < sint fs" "sint fs \<le> 6144" "word_of_int (sint fs) = fs"
  using assms by (auto simp add: ads1015_fullscale_range_def)

lemma fullscale_of_table_value:
  assumes fs: "fs \<in> set ads1015_fullscale_range"
    and lo: "sint fs * 1000000 \<le> scale_micro val val2 * 2 ^ (realbits chan - 1)"
    and hi: "scale_micro val val2 * 2 ^ (realbits chan - 1) < (sint fs + 1) * 1000000"
  shows "fullscale_of chan val val2 = fs"
proof -
  define k where "k = scale_micro val val2 * 2 ^ (realbits chan - 1)"
  note t = fullscale_table_values [OF fs]
  have k: "sint fs * 1000000 \<le> k" "k < (sint fs + 1) * 1000000"
    using lo hi by (simp_all add: k_def)
  have pos: "0 < k" using k(1) t(1) by linarith
  have nn: "0 \<le> scale_micro val val2"
  proof (rule ccontr)
    assume "\<not> 0 \<le> scale_micro val val2"
    then have "scale_micro val val2 * 2 ^ (realbits chan - 1) \<le> 0"
      by (simp add: mult_le_0_iff)
    with pos show False by (simp add: k_def)
  qed
  have "(sint fs + 1) * 1000000 \<le> 6145 * 1000000"
    using t(2) by simp
  then have "k < 6145 * 1000000" using k(2) by linarith
  then have small: "scale_micro val val2 * 2 ^ (realbits chan - 1) < 2 ^ 63"
    by (simp add: k_def)
  have d: "k div 1000000 = sint fs"
    using k by (intro int_div_pos_eq [where r = "k - sint fs * 1000000"]) simp_all
  show ?thesis
    using fullscale_of_floor [OF nn small] d t(3) by (simp add: k_def)
qed

lemma scale_values:
  fixes m f :: int and s :: nat
  shows "(real_of_int f / 2 ^ s \<le> real_of_int m / 1000000) \<longleftrightarrow> (f * 1000000 \<le> m * 2 ^ s)"
    and "(real_of_int m / 1000000 < real_of_int f / 2 ^ s + 1 / 2 ^ s)
           \<longleftrightarrow> (m * 2 ^ s < (f + 1) * 1000000)"
    and "(real_of_int f / 2 ^ s = real_of_int m / 1000000) \<longleftrightarrow> (m * 2 ^ s = f * 1000000)"
proof -
  have a: "real_of_int (f * 1000000) = real_of_int f * 1000000"
    "real_of_int (m * 2 ^ s) = real_of_int m * 2 ^ s"
    "real_of_int ((f + 1) * 1000000) = (real_of_int f + 1) * 1000000"
    by simp_all
  have "(real_of_int f / 2 ^ s \<le> real_of_int m / 1000000)
      \<longleftrightarrow> (real_of_int (f * 1000000) \<le> real_of_int (m * 2 ^ s))"
    unfolding a by (simp add: field_simps)
  then show "(real_of_int f / 2 ^ s \<le> real_of_int m / 1000000) \<longleftrightarrow> (f * 1000000 \<le> m * 2 ^ s)"
    by (simp only: of_int_le_iff)
  have "(real_of_int m / 1000000 < real_of_int f / 2 ^ s + 1 / 2 ^ s)
      \<longleftrightarrow> (real_of_int (m * 2 ^ s) < real_of_int ((f + 1) * 1000000))"
    unfolding a by (simp add: field_simps)
  then show "(real_of_int m / 1000000 < real_of_int f / 2 ^ s + 1 / 2 ^ s)
           \<longleftrightarrow> (m * 2 ^ s < (f + 1) * 1000000)"
    by (simp only: of_int_less_iff)
  have "(real_of_int f / 2 ^ s = real_of_int m / 1000000)
      \<longleftrightarrow> (real_of_int (m * 2 ^ s) = real_of_int (f * 1000000))"
    unfolding a by (auto simp add: field_simps)
  then show "(real_of_int f / 2 ^ s = real_of_int m / 1000000) \<longleftrightarrow> (m * 2 ^ s = f * 1000000)"
    by (simp only: of_int_eq_iff)
qed

lemma no_exact_scale_256_15: "(m :: int) * 2 ^ 15 \<noteq> 256 * 1000000"
proof
  assume "m * 2 ^ 15 = 256 * 1000000"
  then have "2 * m = 15625" by simp
  then show False by presburger
qed


lemma probe_client1115: "ads1015_probe client1115 kernel_ok = Inr probed1115"
proof -
  have cfg: "ads1015_get_channels_config client1115
      ((zeroed_data chip_reset)\<lparr>data_rate_tab := ads1115_data_rate\<rparr>) =
      (zeroed_data chip_reset)\<lparr>data_rate_tab := ads1115_data_rate,
         channel_data := replicate 8 \<lparr>enabled = False, pga = 2, data_rate = 4\<rparr>\<rparr>"
    by (simp add: ads1015_get_channels_config_def ads1015_get_channels_config_of_def client0_def
        client1115_def throwE_def zeroed_data_def ADS1015_CHANNELS_def ADS1015_DEFAULT_PGA_def
        ADS1015_DEFAULT_DATA_RATE_def)
  have dev: "ads1015_probe_device client1115 kernel_ok
      ((zeroed_data chip_reset)\<lparr>data_rate_tab := ads1115_data_rate,
         channel_data := replicate 8 \<lparr>enabled = False, pga = 2, data_rate = 4\<rparr>,
         use_buffer := False\<rparr>) = (Inr (), probed_data\<lparr>data_rate_tab := ads1115_data_rate\<rparr>)"
    by (simp add: ads1015_probe_device_def prog_defs set_conv_ready_pin_eq set_conv_mode_eq
        ads1015_probe_irq_def kernel_call_def client0_def client1115_def kernel_ok_def
        zeroed_data_def
        chip_reset_def next_fault_def cfg_old_def cfg_comp_que_def mask_values shift_defs
        ADS1015_CONTINUOUS_def IRQF_TRIGGER_FALLING_def IRQF_TRIGGER_RISING_def Let_def
        probed_data_def reg_defs)
  have k: "iio_device_alloc_ok kernel_ok" "regmap_init_i2c kernel_ok = None"
    "kfifo_allocate_ok kernel_ok" "chip client1115 = chip_reset" "match_chip client1115 = ADS1115"
    by (simp_all add: kernel_ok_def client0_def client1115_def)
  show ?thesis
    by (simp add: ads1015_probe_def Let_def k cfg dev probed_def probed1115_def
        ADS1015_TIMESTAMP_def)
qed

lemma probed1115_fields:
  "channel_data (priv probed1115) = replicate 8 \<lparr>enabled = False, pga = 2, data_rate = 4\<rparr>"
  "data_rate_tab (priv probed1115) = ads1115_data_rate"
  "wf_data (priv probed1115)"
  by (simp_all add: probed1115_def probed_fields wf_data_def ADS1015_CHANNELS_def list_all_iff)

lemma scale_micro_examples:
  "scale_micro 0 7813 = 7813" "scale_micro 0 7812 = 7812" "scale_micro 0 125000 = 125000"
  "scale_micro 3 0 = 3000000"
  by (simp_all add: scale_micro_def)

lemma ads1115_scale_examples:
  "fullscale_of (ADS1115_V_CHAN 0) 0 7813 = 256"
  "fullscale_of (ADS1115_V_CHAN 0) 0 7812 = 255"
proof -
  have a: "fullscale_of (ADS1115_V_CHAN 0) 0 7813 = word_of_int (7813 * 2 ^ 15 div 1000000)"
    using fullscale_of_floor [of 0 7813 "ADS1115_V_CHAN 0"]
    by (simp add: scale_micro_examples chan_address)
  have b: "fullscale_of (ADS1115_V_CHAN 0) 0 7812 = word_of_int (7812 * 2 ^ 15 div 1000000)"
    using fullscale_of_floor [of 0 7812 "ADS1115_V_CHAN 0"]
    by (simp add: scale_micro_examples chan_address)
  show "fullscale_of (ADS1115_V_CHAN 0) 0 7813 = 256" unfolding a by simp
  show "fullscale_of (ADS1115_V_CHAN 0) 0 7812 = 255" unfolding b by simp
qed

lemma set_scale_7813:
  "ads1015_set_scale (ADS1115_V_CHAN 0) 0 7813 (priv probed1115) =
     (Inr (), (priv probed1115)\<lparr>channel_data := (channel_data (priv probed1115))
        [0 := \<lparr>enabled = False, pga = 5, data_rate = 4\<rparr>]\<rparr>)"
  by (simp add: ads1015_set_scale_def ads1115_scale_examples ads1015_set_scale_loop.simps
      ads1015_fullscale_range_def chan_address probed1115_fields)

lemma set_scale_7812:
  "ads1015_set_scale (ADS1115_V_CHAN 0) 0 7812 (priv probed1115) =
     (Inl (Errno EINVAL), priv probed1115)"
  by (simp add: ads1015_set_scale_def ads1115_scale_examples ads1015_set_scale_loop.simps
      ads1015_fullscale_range_def chan_address probed1115_fields)

text \<open>
  C6 (counterexample): on the ADS1115 the gain table holds 256 at index 5, and the scale
  that the driver advertises for it is 0.007813. A write of 0.007813 to channel 0 of
  the probed driver is accepted and selects index 5; the scale then reads back as
  \<open>256 / 2 ^ 15\<close>, which is 0.0078125 and not the value that was written. A write of
  0.007812 is refused.
\<close>

theorem ads1115_scale_reads_back_rounded:
  "ads1015_probe client1115 kernel_ok = Inr probed1115
   \<and> ads1015_fullscale_range ! 5 = 256
   \<and> fst (ads1015_write_raw (ADS1115_V_CHAN 0) 0 7813 IIO_CHAN_INFO_SCALE probed1115) = Inr ()
   \<and> pga (channel_data (priv (snd (ads1015_write_raw (ADS1115_V_CHAN 0) 0 7813
            IIO_CHAN_INFO_SCALE probed1115))) ! 0) = 5
   \<and> fst (ads1015_read_raw (ADS1115_V_CHAN 0) IIO_CHAN_INFO_SCALE
        (snd (ads1015_write_raw (ADS1115_V_CHAN 0) 0 7813 IIO_CHAN_INFO_SCALE probed1115)))
       = Inr (IIO_VAL_FRACTIONAL_LOG2 256 15)
   \<and> written_scale 0 7813 = 7813 / 1000000
   \<and> iio_value (IIO_VAL_FRACTIONAL_LOG2 256 15) = 78125 / 10000000
   \<and> iio_value (IIO_VAL_FRACTIONAL_LOG2 256 15) \<noteq> written_scale 0 7813
   \<and> fst (ads1015_write_raw (ADS1115_V_CHAN 0) 0 7812 IIO_CHAN_INFO_SCALE probed1115)
       = Inl (Errno EINVAL)"
proof -
  have w: "ads1015_write_raw (ADS1115_V_CHAN 0) 0 7813 IIO_CHAN_INFO_SCALE probed1115 =
      (Inr (), probed1115\<lparr>priv := (priv probed1115)\<lparr>channel_data :=
         (channel_data (priv probed1115))[0 := \<lparr>enabled = False, pga = 5, data_rate = 4\<rparr>]\<rparr>\<rparr>)"
    by (simp add: ads1015_write_raw_def with_priv_def set_scale_7813)
  have w2: "fst (ads1015_write_raw (ADS1115_V_CHAN 0) 0 7812 IIO_CHAN_INFO_SCALE probed1115)
       = Inl (Errno EINVAL)"
    by (simp add: ads1015_write_raw_def with_priv_def set_scale_7812)
  have r: "fst (ads1015_read_raw (ADS1115_V_CHAN 0) IIO_CHAN_INFO_SCALE
        (snd (ads1015_write_raw (ADS1115_V_CHAN 0) 0 7813 IIO_CHAN_INFO_SCALE probed1115)))
       = Inr (IIO_VAL_FRACTIONAL_LOG2 256 15)"
    by (simp add: w ads1015_read_raw_def Let_def chan_address probed1115_fields
        ads1015_fullscale_range_def)
  have p: "pga (channel_data (priv (snd (ads1015_write_raw (ADS1115_V_CHAN 0) 0 7813
            IIO_CHAN_INFO_SCALE probed1115))) ! 0) = 5"
    by (simp add: w probed1115_fields)
  have v: "written_scale 0 7813 = 7813 / 1000000"
    "iio_value (IIO_VAL_FRACTIONAL_LOG2 256 15) = 78125 / 10000000"
    by (simp_all add: written_scale_def scale_micro_examples)
  have ne: "iio_value (IIO_VAL_FRACTIONAL_LOG2 256 15) \<noteq> written_scale 0 7813"
    unfolding v by simp
  have t: "ads1015_fullscale_range ! 5 = 256" by (simp add: ads1015_fullscale_range_def)
  have f: "fst (ads1015_write_raw (ADS1115_V_CHAN 0) 0 7813 IIO_CHAN_INFO_SCALE probed1115) = Inr ()"
    by (simp add: w)
  show ?thesis using probe_client1115 t f p r v ne w2 by blast
qed


text \<open>
  C6 (amended): For every valid channel and every gain value \<open>fs\<close> of the gain table,
  a write of a scale that stands for this gain (the scale written, in millionths and
  times \<open>2 ^ (realbits - 1)\<close>, is at least \<open>fs\<close> millions and less than \<open>fs + 1\<close>
  millions) is accepted, and the scale then reads back as the table value \<open>fs\<close> over
  \<open>2 ^ (realbits - 1)\<close>: the scale written, rounded down to a multiple of
  \<open>1 / 2 ^ (realbits - 1)\<close>. This is the value that was written exactly when the scale
  written times \<open>2 ^ (realbits - 1)\<close> is \<open>fs\<close>; for the gain 256 of a 16 bit channel no
  scale with six decimals is, so that gain never reads back as written. For every rate
  of the rate table, \<^verbatim>\<open>set_data_rate\<close> followed by \<^verbatim>\<open>get_sample_rate\<close> returns the
  rate that was set. Repeating the same write leaves the state, and so the stored
  table index, as it is.
\<close>

theorem scale_and_rate_round_trip:
  assumes "address chan < ADS1015_CHANNELS" and "wf_data (priv dev)"
  shows "(fs \<in> set ads1015_fullscale_range \<longrightarrow>
          sint fs * 1000000 \<le> scale_micro val val2 * 2 ^ (realbits chan - 1) \<longrightarrow>
          scale_micro val val2 * 2 ^ (realbits chan - 1) < (sint fs + 1) * 1000000 \<longrightarrow>
           (\<exists>dev1. ads1015_write_raw chan val val2 IIO_CHAN_INFO_SCALE dev = (Inr (), dev1)
              \<and> ads1015_read_raw chan IIO_CHAN_INFO_SCALE dev1 =
                  (Inr (IIO_VAL_FRACTIONAL_LOG2 fs (realbits chan - 1)), dev1)
              \<and> ads1015_write_raw chan val val2 IIO_CHAN_INFO_SCALE dev1 = (Inr (), dev1))
           \<and> iio_value (IIO_VAL_FRACTIONAL_LOG2 fs (realbits chan - 1)) \<le> written_scale val val2
           \<and> written_scale val val2
               < iio_value (IIO_VAL_FRACTIONAL_LOG2 fs (realbits chan - 1))
                 + 1 / 2 ^ (realbits chan - 1)
           \<and> (iio_value (IIO_VAL_FRACTIONAL_LOG2 fs (realbits chan - 1)) = written_scale val val2
                \<longleftrightarrow> scale_micro val val2 * 2 ^ (realbits chan - 1) = sint fs * 1000000)
           \<and> (realbits chan = 16 \<longrightarrow> fs = 256 \<longrightarrow>
                iio_value (IIO_VAL_FRACTIONAL_LOG2 fs (realbits chan - 1))
                  \<noteq> written_scale val val2))
       \<and> (rate \<in> set (data_rate_tab (priv dev)) \<longrightarrow>
           (\<exists>dev1. ads1015_write_raw chan rate val2 IIO_CHAN_INFO_SAMP_FREQ dev = (Inr (), dev1)
              \<and> ads1015_read_raw chan IIO_CHAN_INFO_SAMP_FREQ dev1 = (Inr (IIO_VAL_INT rate), dev1)
              \<and> ads1015_write_raw chan rate val2 IIO_CHAN_INFO_SAMP_FREQ dev1 = (Inr (), dev1)))"
proof (intro conjI impI)
  have a8: "address chan < 8" using assms(1) by (simp add: ADS1015_CHANNELS_def)
  have a: "address chan < length (channel_data (priv dev))"
    using a8 wf_lengths(1) [OF assms(2)] by simp
  {
    assume fs: "fs \<in> set ads1015_fullscale_range"
      and lo: "sint fs * 1000000 \<le> scale_micro val val2 * 2 ^ (realbits chan - 1)"
      and hi: "scale_micro val val2 * 2 ^ (realbits chan - 1) < (sint fs + 1) * 1000000"
    have eq: "fullscale_of chan val val2 = fs"
      using fs lo hi by (rule fullscale_of_table_value)
    have v: "fullscale_of chan val val2 \<in> set ads1015_fullscale_range"
      using fs eq by simp
    from set_scale_round_trip [OF v a] obtain d' where d':
      "ads1015_set_scale chan val val2 (priv dev) = (Inr (), d')"
      "length (channel_data d') = length (channel_data (priv dev))"
      "unat (pga (channel_data d' ! address chan)) < length ads1015_fullscale_range"
      "ads1015_fullscale_range ! unat (pga (channel_data d' ! address chan))
         = fullscale_of chan val val2"
      "ads1015_set_scale chan val val2 d' = (Inr (), d')"
      by blast
    let ?dev1 = "dev\<lparr>priv := d'\<rparr>"
    have w: "ads1015_write_raw chan val val2 IIO_CHAN_INFO_SCALE dev = (Inr (), ?dev1)"
      using d'(1) by (simp add: ads1015_write_raw_def with_priv_def)
    have r: "ads1015_read_raw chan IIO_CHAN_INFO_SCALE ?dev1 =
        (Inr (IIO_VAL_FRACTIONAL_LOG2 fs (realbits chan - 1)), ?dev1)"
      using d'(2,3,4) a eq by (simp add: ads1015_read_raw_def Let_def)
    have w2: "ads1015_write_raw chan val val2 IIO_CHAN_INFO_SCALE ?dev1 = (Inr (), ?dev1)"
      using d'(5) by (simp add: ads1015_write_raw_def with_priv_def)
    show "\<exists>dev1. ads1015_write_raw chan val val2 IIO_CHAN_INFO_SCALE dev = (Inr (), dev1)
              \<and> ads1015_read_raw chan IIO_CHAN_INFO_SCALE dev1 =
                  (Inr (IIO_VAL_FRACTIONAL_LOG2 fs (realbits chan - 1)), dev1)
              \<and> ads1015_write_raw chan val val2 IIO_CHAN_INFO_SCALE dev1 = (Inr (), dev1)"
      using w r w2 by blast
    show "iio_value (IIO_VAL_FRACTIONAL_LOG2 fs (realbits chan - 1)) \<le> written_scale val val2"
      using lo by (simp only: iio_value.simps written_scale_def scale_values)
    show "written_scale val val2
               < iio_value (IIO_VAL_FRACTIONAL_LOG2 fs (realbits chan - 1))
                 + 1 / 2 ^ (realbits chan - 1)"
      using hi by (simp only: iio_value.simps written_scale_def scale_values)
    show "iio_value (IIO_VAL_FRACTIONAL_LOG2 fs (realbits chan - 1)) = written_scale val val2
                \<longleftrightarrow> scale_micro val val2 * 2 ^ (realbits chan - 1) = sint fs * 1000000"
      by (simp only: iio_value.simps written_scale_def scale_values)
    {
      assume b: "realbits chan = 16" and f: "fs = 256"
      have "scale_micro val val2 * 2 ^ (realbits chan - 1) \<noteq> sint fs * 1000000"
        using no_exact_scale_256_15 [of "scale_micro val val2"] by (simp add: b f)
      then show "iio_value (IIO_VAL_FRACTIONAL_LOG2 fs (realbits chan - 1))
                  \<noteq> written_scale val val2"
        by (simp only: iio_value.simps written_scale_def scale_values simp_thms)
    }
  }
  {
    assume v: "rate \<in> set (data_rate_tab (priv dev))"
    let ?c = "of_nat (address chan) :: 32 word"
    have c: "unat ?c = address chan" using a8 by (rule unat_of_nat_index)
    have a': "unat ?c < length (channel_data (priv dev))" using a c by simp
    from set_data_rate_round_trip [OF v wf_lengths(2) [OF assms(2)] a'] obtain d' where d':
      "ads1015_set_data_rate ?c rate (priv dev) = (Inr (), d')"
      "length (channel_data d') = length (channel_data (priv dev))"
      "unat (data_rate (channel_data d' ! unat ?c)) < length (data_rate_tab d')"
      "data_rate_tab d' ! unat (data_rate (channel_data d' ! unat ?c)) = rate"
      "ads1015_set_data_rate ?c rate d' = (Inr (), d')"
      by blast
    let ?dev1 = "dev\<lparr>priv := d'\<rparr>"
    have w: "ads1015_write_raw chan rate val2 IIO_CHAN_INFO_SAMP_FREQ dev = (Inr (), ?dev1)"
      using d'(1) by (simp add: ads1015_write_raw_def with_priv_def)
    have r: "ads1015_read_raw chan IIO_CHAN_INFO_SAMP_FREQ ?dev1 = (Inr (IIO_VAL_INT rate), ?dev1)"
      using d'(2,3,4) a unfolding c by (simp add: ads1015_read_raw_def Let_def)
    have w2: "ads1015_write_raw chan rate val2 IIO_CHAN_INFO_SAMP_FREQ ?dev1 = (Inr (), ?dev1)"
      using d'(5) by (simp add: ads1015_write_raw_def with_priv_def)
    show "\<exists>dev1. ads1015_write_raw chan rate val2 IIO_CHAN_INFO_SAMP_FREQ dev = (Inr (), dev1)
              \<and> ads1015_read_raw chan IIO_CHAN_INFO_SAMP_FREQ dev1 = (Inr (IIO_VAL_INT rate), dev1)
              \<and> ads1015_write_raw chan rate val2 IIO_CHAN_INFO_SAMP_FREQ dev1 = (Inr (), dev1)"
      using w r w2 by blast
  }
qed


theorem scale_and_rate_round_trip_witness:
  "address (ADS1015_V_CHAN 3) < ADS1015_CHANNELS \<and> wf_data (priv probed)
   \<and> 6144 \<in> set ads1015_fullscale_range
   \<and> sint (6144 :: 32 word) * 1000000 \<le> scale_micro 3 0 * 2 ^ (realbits (ADS1015_V_CHAN 3) - 1)
   \<and> scale_micro 3 0 * 2 ^ (realbits (ADS1015_V_CHAN 3) - 1) < (sint (6144 :: 32 word) + 1) * 1000000
   \<and> (\<exists>dev1. ads1015_write_raw (ADS1015_V_CHAN 3) 3 0 IIO_CHAN_INFO_SCALE probed = (Inr (), dev1)
         \<and> ads1015_read_raw (ADS1015_V_CHAN 3) IIO_CHAN_INFO_SCALE dev1 =
             (Inr (IIO_VAL_FRACTIONAL_LOG2 6144 11), dev1)
         \<and> ads1015_write_raw (ADS1015_V_CHAN 3) 3 0 IIO_CHAN_INFO_SCALE dev1 = (Inr (), dev1))
   \<and> scale_micro 3 0 * 2 ^ (realbits (ADS1015_V_CHAN 3) - 1) = sint (6144 :: 32 word) * 1000000
   \<and> iio_value (IIO_VAL_FRACTIONAL_LOG2 6144 11) = written_scale 3 0
   \<and> written_scale 3 0 = 3
   \<and> address (ADS1115_V_CHAN 0) < ADS1015_CHANNELS \<and> wf_data (priv probed1115)
   \<and> 256 \<in> set ads1015_fullscale_range
   \<and> sint (256 :: 32 word) * 1000000 \<le> scale_micro 0 7813 * 2 ^ (realbits (ADS1115_V_CHAN 0) - 1)
   \<and> scale_micro 0 7813 * 2 ^ (realbits (ADS1115_V_CHAN 0) - 1) < (sint (256 :: 32 word) + 1) * 1000000
   \<and> (\<exists>dev1. ads1015_write_raw (ADS1115_V_CHAN 0) 0 7813 IIO_CHAN_INFO_SCALE probed1115
                = (Inr (), dev1)
         \<and> ads1015_read_raw (ADS1115_V_CHAN 0) IIO_CHAN_INFO_SCALE dev1 =
             (Inr (IIO_VAL_FRACTIONAL_LOG2 256 15), dev1)
         \<and> ads1015_write_raw (ADS1115_V_CHAN 0) 0 7813 IIO_CHAN_INFO_SCALE dev1 = (Inr (), dev1))
   \<and> realbits (ADS1115_V_CHAN 0) = 16
   \<and> iio_value (IIO_VAL_FRACTIONAL_LOG2 256 15) \<le> written_scale 0 7813
   \<and> written_scale 0 7813 < iio_value (IIO_VAL_FRACTIONAL_LOG2 256 15) + 1 / 2 ^ 15
   \<and> iio_value (IIO_VAL_FRACTIONAL_LOG2 256 15) \<noteq> written_scale 0 7813
   \<and> 3300 \<in> set (data_rate_tab (priv probed))
   \<and> (\<exists>dev1. ads1015_write_raw (ADS1015_V_CHAN 3) 3300 0 IIO_CHAN_INFO_SAMP_FREQ probed = (Inr (), dev1)
         \<and> ads1015_read_raw (ADS1015_V_CHAN 3) IIO_CHAN_INFO_SAMP_FREQ dev1 =
             (Inr (IIO_VAL_INT 3300), dev1)
         \<and> ads1015_write_raw (ADS1015_V_CHAN 3) 3300 0 IIO_CHAN_INFO_SAMP_FREQ dev1 = (Inr (), dev1))"
proof -
  have h: "address (ADS1015_V_CHAN 3) < ADS1015_CHANNELS" "wf_data (priv probed)"
    "address (ADS1115_V_CHAN 0) < ADS1015_CHANNELS"
    by (simp_all add: chan_address ADS1015_CHANNELS_def probed_def wf_probed_data)
  note h1115 = probed1115_fields(3)
  have v: "6144 \<in> set ads1015_fullscale_range" "256 \<in> set ads1015_fullscale_range"
    "3300 \<in> set (data_rate_tab (priv probed))"
    by (simp_all add: ads1015_fullscale_range_def probed_def probed_fields ads1015_data_rate_def)
  have b: "sint (6144 :: 32 word) * 1000000 \<le> scale_micro 3 0 * 2 ^ (realbits (ADS1015_V_CHAN 3) - 1)"
    "scale_micro 3 0 * 2 ^ (realbits (ADS1015_V_CHAN 3) - 1) < (sint (6144 :: 32 word) + 1) * 1000000"
    "scale_micro 3 0 * 2 ^ (realbits (ADS1015_V_CHAN 3) - 1) = sint (6144 :: 32 word) * 1000000"
    "sint (256 :: 32 word) * 1000000 \<le> scale_micro 0 7813 * 2 ^ (realbits (ADS1115_V_CHAN 0) - 1)"
    "scale_micro 0 7813 * 2 ^ (realbits (ADS1115_V_CHAN 0) - 1) < (sint (256 :: 32 word) + 1) * 1000000"
    by (simp_all add: scale_micro_examples chan_address)
  have rb: "realbits (ADS1015_V_CHAN 3) - 1 = 11" "realbits (ADS1115_V_CHAN 0) - 1 = 15"
    "realbits (ADS1115_V_CHAN 0) = 16"
    by (simp_all add: chan_address)
  have ws: "written_scale 3 0 = 3"
    by (simp add: written_scale_def scale_micro_examples)
  note t1 = scale_and_rate_round_trip [OF h(1) h(2), where fs = 6144 and val = 3 and ?val2.0 = 0
      and rate = 3300]
  note s1 = t1 [THEN conjunct1, rule_format, OF v(1) b(1) b(2), unfolded rb(1,2)]
  note r1 = t1 [THEN conjunct2, rule_format, OF v(3)]
  note e1 = s1 [THEN conjunct2, THEN conjunct2, THEN conjunct2, THEN conjunct1, THEN iffD2,
      OF b(3) [unfolded rb(1,2)]]
  note t2 = scale_and_rate_round_trip [OF h(3) h1115, where fs = 256 and val = 0
      and ?val2.0 = 7813]
  note s2 = t2 [THEN conjunct1, rule_format, OF v(2) b(4) b(5), unfolded rb(1,2)]
  note n2 = s2 [THEN conjunct2, THEN conjunct2, THEN conjunct2, THEN conjunct2, rule_format,
      OF rb(3) refl]
  show ?thesis
    using h h1115 v b rb(3) ws s1 [THEN conjunct1] e1 r1 s2 [THEN conjunct1]
      s2 [THEN conjunct2, THEN conjunct1] s2 [THEN conjunct2, THEN conjunct2, THEN conjunct1] n2
    by blast
qed

end
